theory Spec2Isabelle
  imports Complex_Main "HOL-Library.Product_Lexorder" "HOL-Library.Sublist"
begin

section \<open>JavaScript numbers and values\<close>

text \<open>
  The boxplot plugin computes on JavaScript numbers.  A number is modelled as NaN, one of
  the two infinities, or a finite value.  The operations of this section return the exact
  result on finite values and write out what NaN and the infinities do; the rounding and
  the overflow of doubles are added in the section on double arithmetic, where the
  statistics functions are written once more over a rounding function.  The sign of zero
  is not modelled.
\<close>

datatype jsnum = NaN | NegInf | Fin real | PosInf

fun isNaN :: "jsnum \<Rightarrow> bool" where
  "isNaN NaN = True"
| "isNaN NegInf = False"
| "isNaN (Fin x) = False"
| "isNaN PosInf = False"

fun js_neg :: "jsnum \<Rightarrow> jsnum" where
  "js_neg NaN = NaN"
| "js_neg NegInf = PosInf"
| "js_neg (Fin x) = Fin (- x)"
| "js_neg PosInf = NegInf"

text \<open>
  \<open>a + b\<close>: NaN is absorbing, opposite infinities give NaN.  On two finite values
  this is the exact sum; the sum that double arithmetic returns is \<open>fl_add\<close> below.
\<close>

fun js_add :: "jsnum \<Rightarrow> jsnum \<Rightarrow> jsnum" where
  "js_add (Fin x) (Fin y) = Fin (x + y)"
| "js_add NaN b = NaN"
| "js_add a NaN = NaN"
| "js_add PosInf NegInf = NaN"
| "js_add NegInf PosInf = NaN"
| "js_add PosInf b = PosInf"
| "js_add a PosInf = PosInf"
| "js_add NegInf b = NegInf"
| "js_add a NegInf = NegInf"

definition js_sub :: "jsnum \<Rightarrow> jsnum \<Rightarrow> jsnum" where
  "js_sub a b = js_add a (js_neg b)"

fun js_sign :: "jsnum \<Rightarrow> real" where
  "js_sign NaN = 0"
| "js_sign NegInf = - 1"
| "js_sign (Fin x) = sgn x"
| "js_sign PosInf = 1"

text \<open>
  \<open>a * b\<close>: an infinity times zero is NaN, otherwise the signs multiply.  On two
  finite values this is the exact product; the rounded one is \<open>fl_mul\<close> below.
\<close>

fun js_mul :: "jsnum \<Rightarrow> jsnum \<Rightarrow> jsnum" where
  "js_mul (Fin x) (Fin y) = Fin (x * y)"
| "js_mul NaN b = NaN"
| "js_mul a NaN = NaN"
| "js_mul a b =
     (if js_sign a * js_sign b = 0 then NaN
      else if js_sign a * js_sign b > 0 then PosInf else NegInf)"

text \<open>
  \<open>a / b\<close>; a zero divisor is read as \<open>+0\<close>.  On two finite values with a non-zero
  divisor this is the exact quotient; the rounded one is \<open>fl_div\<close> below.
\<close>

fun js_div :: "jsnum \<Rightarrow> jsnum \<Rightarrow> jsnum" where
  "js_div (Fin x) (Fin y) =
     (if y = 0 then (if x = 0 then NaN else if x > 0 then PosInf else NegInf)
      else Fin (x / y))"
| "js_div NaN b = NaN"
| "js_div a NaN = NaN"
| "js_div (Fin x) b = Fin 0"
| "js_div a (Fin y) = (if (a = PosInf) = (y \<ge> 0) then PosInf else NegInf)"
| "js_div a b = NaN"

text \<open>Comparisons: every comparison with NaN is false.\<close>

fun js_lt :: "jsnum \<Rightarrow> jsnum \<Rightarrow> bool" where
  "js_lt NaN b = False"
| "js_lt a NaN = False"
| "js_lt (Fin x) (Fin y) = (x < y)"
| "js_lt NegInf b = (b \<noteq> NegInf)"
| "js_lt a PosInf = (a \<noteq> PosInf)"
| "js_lt a b = False"

definition js_le :: "jsnum \<Rightarrow> jsnum \<Rightarrow> bool" where
  "js_le a b = (\<not> isNaN a \<and> \<not> isNaN b \<and> (a = b \<or> js_lt a b))"

definition js_gt :: "jsnum \<Rightarrow> jsnum \<Rightarrow> bool" where
  "js_gt a b = js_lt b a"

definition js_ge :: "jsnum \<Rightarrow> jsnum \<Rightarrow> bool" where
  "js_ge a b = js_le b a"

text \<open>
  The values a row of \<open>view.to_json()\<close> holds: \<open>undefined\<close> (what reading a
  missing key gives), \<open>null\<close>, a boolean, a number, a string.
\<close>

datatype jsval = JUndefined | JNull | JBool bool | JNum jsnum | JStr string

type_synonym row = "string \<Rightarrow> jsval option"

text \<open>\<open>d[col]\<close>: a missing key reads as \<open>undefined\<close>.\<close>

definition getField :: "row \<Rightarrow> string \<Rightarrow> jsval" where
  "getField d col = (case d col of None \<Rightarrow> JUndefined | Some v \<Rightarrow> v)"

text \<open>
  \<open>+v\<close>, the numeric coercion.  The coercion of a string (JavaScript's StringToNumber
  grammar) is a parameter \<open>s2n\<close> of the model: every result below holds for any such
  function.
\<close>

fun toNumber :: "(string \<Rightarrow> jsnum) \<Rightarrow> jsval \<Rightarrow> jsnum" where
  "toNumber s2n JUndefined = NaN"
| "toNumber s2n JNull = Fin 0"
| "toNumber s2n (JBool b) = Fin (if b then 1 else 0)"
| "toNumber s2n (JNum x) = x"
| "toNumber s2n (JStr s) = s2n s"

text \<open>Truthiness, as \<open>||\<close> and \<open>if (...)\<close> test it.\<close>

fun truthy :: "jsval \<Rightarrow> bool" where
  "truthy JUndefined = False"
| "truthy JNull = False"
| "truthy (JBool b) = b"
| "truthy (JNum x) = (\<not> isNaN x \<and> x \<noteq> Fin 0)"
| "truthy (JStr s) = (s \<noteq> [])"

section \<open>The d3-array functions the plugin calls\<close>

text \<open>
  The plugin imports d3; the library is not part of the repository.  Its functions are
  modelled here as d3-array documents them and as the specification describes them, for
  the arguments the plugin passes: arrays of numbers without NaN.
\<close>

text \<open>
  \<open>.sort(d3.ascending)\<close> on numbers without NaN: ascending order, \<open>-Infinity\<close> first
  and \<open>Infinity\<close> last.  The key places NaN after everything; no sorted array of the
  plugin holds one.
\<close>

fun ascending_key :: "jsnum \<Rightarrow> nat \<times> real" where
  "ascending_key NegInf = (0, 0)"
| "ascending_key (Fin x) = (1, x)"
| "ascending_key PosInf = (2, 0)"
| "ascending_key NaN = (3, 0)"

definition sort_ascending :: "jsnum list \<Rightarrow> jsnum list" where
  "sort_ascending vs = sort_key ascending_key vs"

text \<open>
  Modelled from the spec: \<open>d3.quantile(values, p)\<close> of the d3 library, on a sorted array.
  Section 4.2 of the specification: the quantile at fraction \<open>p\<close> is found at continuous
  rank \<open>i = (n - 1) * p\<close>, interpolating linearly between the values at \<open>floor i\<close>
  and the next index.  d3 returns \<open>undefined\<close> (None) for an empty array, the first value
  for \<open>p \<le> 0\<close> or a single value, the last for \<open>p \<ge> 1\<close>, and otherwise
  \<open>value0 + (value1 - value0) * (i - i0)\<close>.
\<close>

definition d3_quantile :: "jsnum list \<Rightarrow> real \<Rightarrow> jsnum option" where
  "d3_quantile vs p =
     (let n = length vs in
      if n = 0 then None
      else if p \<le> 0 \<or> n < 2 then Some (vs ! 0)
      else if p \<ge> 1 then Some (vs ! (n - 1))
      else
        let i = real (n - 1) * p;
            i0 = nat \<lfloor>i\<rfloor>;
            value0 = vs ! i0;
            value1 = vs ! (i0 + 1)
        in Some (js_add value0 (js_mul (js_sub value1 value0) (Fin (i - real i0)))))"

text \<open>
  Modelled from the spec: \<open>d3.mean(values)\<close> of the d3 library, the arithmetic mean of
  the numbers of the array (NaN entries are skipped), \<open>undefined\<close> (None) when there is
  none.
\<close>

definition d3_mean :: "jsnum list \<Rightarrow> jsnum option" where
  "d3_mean vs =
     (let nums = filter (\<lambda>v. \<not> isNaN v) vs;
          count = length nums;
          sum = foldl js_add (Fin 0) nums
      in if count = 0 then None else Some (js_div sum (Fin (real count))))"

text \<open>
  Modelled from the spec: \<open>d3.group(data, key)\<close> of the d3 library.  It fills a Map from
  key to the array of the rows with that key; a Map iterates in insertion order, so the
  groups come in the order in which their keys first occur, and each group keeps the
  order of the rows.
\<close>

fun group_insert :: "'k \<Rightarrow> 'a \<Rightarrow> ('k \<times> 'a list) list \<Rightarrow> ('k \<times> 'a list) list" where
  "group_insert k d [] = [(k, [d])]"
| "group_insert k d ((k', ds) # gs) =
     (if k' = k then (k', ds @ [d]) # gs else (k', ds) # group_insert k d gs)"

definition d3_group :: "'a list \<Rightarrow> ('a \<Rightarrow> 'k) \<Rightarrow> ('k \<times> 'a list) list" where
  "d3_group data key = foldl (\<lambda>gs d. group_insert (key d) d gs) [] data"

section \<open>The plugin: \<open>_calculateBoxplotStats\<close>\<close>

text \<open>
  The methods of the plugin class whose names start with an underscore are written with
  the prefix \<open>priv_\<close>.  The fields \<open>min\<close> and \<open>max\<close> of the statistics object are
  \<open>min_stat\<close> and \<open>max_stat\<close>.
\<close>

record BoxplotStats =
  min_stat :: jsnum
  max_stat :: jsnum
  q1 :: jsnum
  median :: jsnum
  q3 :: jsnum
  mean :: jsnum
  outliers :: "jsnum list"
  count :: nat

text \<open>
  \<open>found || dflt\<close> where \<open>found\<close> is the result of \<open>Array.prototype.find\<close> on numbers:
  \<open>undefined\<close> (None), \<open>0\<close> and NaN are falsy and give \<open>dflt\<close>.
\<close>

definition or_else :: "jsnum option \<Rightarrow> jsnum \<Rightarrow> jsnum" where
  "or_else found dflt =
     (case found of None \<Rightarrow> dflt | Some v \<Rightarrow> if truthy (JNum v) then v else dflt)"

text \<open>
  \<open>_calculateBoxplotStats(values)\<close>: \<open>null\<close> (None) for an empty array.  On a non-empty
  array without NaN, \<open>d3.quantile\<close> and \<open>d3.mean\<close> return numbers
  (\<open>priv_calculateBoxplotStats_returns\<close> below), so the last branch is never taken.  On an
  array of NaN entries only, which the plugin never passes, the JavaScript returns an
  object of undefined fields; that is None here too.
\<close>

definition priv_calculateBoxplotStats :: "jsnum list \<Rightarrow> BoxplotStats option" where
  "priv_calculateBoxplotStats vs =
     (if length vs = 0 then None
      else
        let sortedValues = sort_ascending vs;
            n = length sortedValues
        in case (d3_quantile sortedValues (1/4), d3_quantile sortedValues (1/2),
                 d3_quantile sortedValues (3/4), d3_mean sortedValues) of
             (Some q1v, Some medianv, Some q3v, Some meanv) \<Rightarrow>
               let iqr = js_sub q3v q1v;
                   lowerFence = js_sub q1v (js_mul (Fin (3/2)) iqr);
                   upperFence = js_add q3v (js_mul (Fin (3/2)) iqr);
                   minv = or_else (find (\<lambda>v. js_ge v lowerFence) sortedValues)
                            (sortedValues ! 0);
                   maxv = or_else (find (\<lambda>v. js_le v upperFence) (rev sortedValues))
                            (sortedValues ! (n - 1));
                   outs = filter (\<lambda>v. js_lt v lowerFence \<or> js_gt v upperFence) sortedValues
               in Some \<lparr>min_stat = minv, max_stat = maxv, q1 = q1v, median = medianv,
                          q3 = q3v, mean = meanv, outliers = outs, count = n\<rparr>
           | _ \<Rightarrow> None)"

section \<open>The plugin: \<open>_processRawData\<close> and \<open>_processDataForBoxplot\<close>\<close>

record ViewConfig =
  columns :: "string list option"
  group_by :: "string list option"

type_synonym schema = "string \<Rightarrow> string option"

text \<open>The column list of a configuration, \<open>config.columns || []\<close>.\<close>

definition configColumns :: "ViewConfig \<Rightarrow> string list" where
  "configColumns config = (case columns config of None \<Rightarrow> [] | Some cs \<Rightarrow> cs)"

datatype console_msg = WarnNoNumeric | WarnMultipleCategorical "string list"

text \<open>
  The \<open>forEach\<close> over \<open>config.columns\<close> that fills \<open>numericColumns\<close> and
  \<open>categoricalColumns\<close>: one step of the loop, and the loop.
\<close>

definition classifyStep :: "schema \<Rightarrow> string list \<times> string list \<Rightarrow> string \<Rightarrow> string list \<times> string list" where
  "classifyStep sch acc col =
     (case acc of (numericColumns, categoricalColumns) \<Rightarrow>
        if sch col = Some ''float'' \<or> sch col = Some ''integer''
          then (numericColumns @ [col], categoricalColumns)
        else if sch col = Some ''string''
          then (numericColumns, categoricalColumns @ [col])
        else (numericColumns, categoricalColumns))"

definition classifyColumns :: "schema \<Rightarrow> string list \<Rightarrow> string list \<times> string list" where
  "classifyColumns sch cols = foldl (classifyStep sch) ([], []) cols"

text \<open>
  The four strategies that choose \<open>groupByColumn\<close> (\<open>null\<close> is None), with the
  warnings written to the console.
\<close>

definition resolveGroupBy :: "ViewConfig \<Rightarrow> string list \<Rightarrow> string option \<times> console_msg list" where
  "resolveGroupBy config categoricalColumns =
     (let gb = (case group_by config of None \<Rightarrow> [] | Some gs \<Rightarrow> gs) in
      if length gb > 0 then (Some (gb ! 0), [])
      else if length categoricalColumns = 1 then (Some (categoricalColumns ! 0), [])
      else if length categoricalColumns > 1
        then (Some (categoricalColumns ! 0), [WarnMultipleCategorical categoricalColumns])
      else (None, []))"

record BoxplotRecord =
  label :: jsval
  metric :: string
  metricIndex :: nat
  groupKey :: jsval
  "values" :: "jsnum list"
  stats :: "BoxplotStats option"

text \<open>\<open>d => d[groupByColumn] || 'Unknown'\<close>, the key function of the grouping.\<close>

definition groupKeyOf :: "string \<Rightarrow> row \<Rightarrow> jsval" where
  "groupKeyOf groupByColumn d =
     (let v = getField d groupByColumn in if truthy v then v else JStr ''Unknown'')"

text \<open>
  \<open>rows.map(d => +d[metricCol]).filter(v => !isNaN(v) && v !== null && v !== undefined)
  .sort(d3.ascending)\<close>.  The filter runs after the coercion, on numbers: its second and
  third test compare a number with \<open>null\<close> and \<open>undefined\<close> and always hold.
\<close>

definition metricValues :: "(string \<Rightarrow> jsnum) \<Rightarrow> row list \<Rightarrow> string \<Rightarrow> jsnum list" where
  "metricValues s2n rows metricCol =
     sort_ascending
       (filter (\<lambda>v. \<not> isNaN v) (map (\<lambda>d. toNumber s2n (getField d metricCol)) rows))"

text \<open>
  The body of \<open>numericColumns.forEach((metricCol, metricIndex) => ...)\<close>: the record
  pushed for one metric of one group, none when no value is left.
\<close>

definition cellRecord :: "(string \<Rightarrow> jsnum) \<Rightarrow> jsval \<Rightarrow> row list \<Rightarrow> nat \<times> string \<Rightarrow> BoxplotRecord list" where
  "cellRecord s2n key rows im =
     (case im of (metricIdx, metricCol) \<Rightarrow>
        let vals = metricValues s2n rows metricCol in
        if length vals > 0
          then [\<lparr>label = key, metric = metricCol, metricIndex = metricIdx, groupKey = key,
                  values = vals, stats = priv_calculateBoxplotStats vals\<rparr>]
        else [])"

definition groupedRecords :: "(string \<Rightarrow> jsnum) \<Rightarrow> row list \<Rightarrow> string \<Rightarrow> string list \<Rightarrow> BoxplotRecord list" where
  "groupedRecords s2n data groupByColumn numericColumns =
     concat (map (\<lambda>(key, groupData).
                    concat (map (cellRecord s2n key groupData) (enumerate 0 numericColumns)))
                 (d3_group data (groupKeyOf groupByColumn)))"

definition ungroupedRecords :: "(string \<Rightarrow> jsnum) \<Rightarrow> row list \<Rightarrow> string list \<Rightarrow> BoxplotRecord list" where
  "ungroupedRecords s2n data numericColumns =
     concat (map (\<lambda>im. cellRecord s2n (JStr (snd im)) data im) (enumerate 0 numericColumns))"

text \<open>
  \<open>_processRawData(data, config, schema)\<close>: the console warnings and the returned
  array.  \<open>if (groupByColumn)\<close> tests truthiness: \<open>null\<close> and the empty string take the
  ungrouped branch.
\<close>

definition priv_processRawData :: "(string \<Rightarrow> jsnum) \<Rightarrow> row list \<Rightarrow> ViewConfig \<Rightarrow> schema \<Rightarrow> console_msg list \<times> BoxplotRecord list" where
  "priv_processRawData s2n data config sch =
     (let cols = configColumns config;
          numericColumns = fst (classifyColumns sch cols);
          categoricalColumns = snd (classifyColumns sch cols)
      in if length numericColumns = 0 then ([WarnNoNumeric], [])
         else
           let groupByColumn = fst (resolveGroupBy config categoricalColumns);
               console = snd (resolveGroupBy config categoricalColumns)
           in (console,
               case groupByColumn of
                 None \<Rightarrow> ungroupedRecords s2n data numericColumns
               | Some g \<Rightarrow>
                   if g \<noteq> [] then groupedRecords s2n data g numericColumns
                   else ungroupedRecords s2n data numericColumns))"

text \<open>
  \<open>_processDataForBoxplot(data, config, schema)\<close>; \<open>data\<close> may be \<open>null\<close> or
  \<open>undefined\<close> (None).
\<close>

definition priv_processDataForBoxplot :: "(string \<Rightarrow> jsnum) \<Rightarrow> row list option \<Rightarrow> ViewConfig \<Rightarrow> schema \<Rightarrow> console_msg list \<times> BoxplotRecord list" where
  "priv_processDataForBoxplot s2n data config sch =
     (case data of
        None \<Rightarrow> ([], [])
      | Some rows \<Rightarrow>
          if length rows = 0 then ([], []) else priv_processRawData s2n rows config sch)"

section \<open>The React integration: \<open>draw\<close>, \<open>renderBoxplot\<close>, \<open>calculateBoxplotStats\<close>\<close>

text \<open>
  \<open>src/js/react-proper.js\<close> registers a second plugin class with its own copy of the
  pipeline.  Its objects have the fields \<open>group\<close>, \<open>metric\<close>, \<open>values\<close> and
  \<open>stats\<close>, written here with the prefix \<open>d_\<close>.
\<close>

record BoxplotDatum =
  d_group :: jsval
  d_metric :: string
  d_values :: "jsnum list"
  d_stats :: "BoxplotStats option"

text \<open>
  \<open>calculateBoxplotStats(values)\<close>.  It is called on non-empty arrays only; on an empty
  array the JavaScript returns an object of undefined fields, which is None here, as is
  the branch where a d3 function returns \<open>undefined\<close>.
\<close>

definition calculateBoxplotStats :: "jsnum list \<Rightarrow> BoxplotStats option" where
  "calculateBoxplotStats vs =
     (let sorted_vs = sort_ascending vs;
          n = length sorted_vs
      in case (d3_quantile sorted_vs (1/4), d3_quantile sorted_vs (1/2),
               d3_quantile sorted_vs (3/4), d3_mean sorted_vs) of
           (Some q1v, Some medianv, Some q3v, Some meanv) \<Rightarrow>
             let iqr = js_sub q3v q1v;
                 lowerFence = js_sub q1v (js_mul (Fin (3/2)) iqr);
                 upperFence = js_add q3v (js_mul (Fin (3/2)) iqr);
                 outs = filter (\<lambda>v. js_lt v lowerFence \<or> js_gt v upperFence) sorted_vs;
                 nonOutliers = filter (\<lambda>v. js_ge v lowerFence \<and> js_le v upperFence) sorted_vs;
                 minv = (if length nonOutliers > 0 then nonOutliers ! 0 else sorted_vs ! 0);
                 maxv = (if length nonOutliers > 0 then nonOutliers ! (length nonOutliers - 1)
                         else sorted_vs ! (length sorted_vs - 1))
             in Some \<lparr>min_stat = minv, max_stat = maxv, q1 = q1v, median = medianv,
                        q3 = q3v, mean = meanv, outliers = outs, count = n\<rparr>
         | _ \<Rightarrow> None)"

text \<open>\<open>values.map(d => +d[metric]).filter(v => !isNaN(v)).sort(d3.ascending)\<close>.\<close>

definition datumValues :: "(string \<Rightarrow> jsnum) \<Rightarrow> row list \<Rightarrow> string \<Rightarrow> jsnum list" where
  "datumValues s2n rows metricCol =
     sort_ascending
       (filter (\<lambda>v. \<not> isNaN v) (map (\<lambda>d. toNumber s2n (getField d metricCol)) rows))"

definition cellDatum :: "(string \<Rightarrow> jsnum) \<Rightarrow> jsval \<Rightarrow> row list \<Rightarrow> string \<Rightarrow> BoxplotDatum list" where
  "cellDatum s2n grp rows metricCol =
     (let metricVals = datumValues s2n rows metricCol in
      if length metricVals > 0
        then [\<lparr>d_group = grp, d_metric = metricCol, d_values = metricVals,
                d_stats = calculateBoxplotStats metricVals\<rparr>]
      else [])"

text \<open>
  The part of \<open>renderBoxplot(data, groupByColumn, metricColumns)\<close> that fills
  \<open>boxplotData\<close>; the drawing is not modelled.  The grouping key is the raw value
  \<open>d[groupByColumn]\<close>.
\<close>

definition renderBoxplot :: "(string \<Rightarrow> jsnum) \<Rightarrow> row list \<Rightarrow> string option \<Rightarrow> string list \<Rightarrow> BoxplotDatum list" where
  "renderBoxplot s2n data groupByColumn metricColumns =
     (case groupByColumn of
        None \<Rightarrow> concat (map (\<lambda>m. cellDatum s2n (JStr m) data m) metricColumns)
      | Some g \<Rightarrow>
          if g \<noteq> []
            then concat (map (\<lambda>(grp, rows). concat (map (cellDatum s2n grp rows) metricColumns))
                           (d3_group data (\<lambda>d. getField d g)))
          else concat (map (\<lambda>m. cellDatum s2n (JStr m) data m) metricColumns))"

text \<open>
  \<open>draw(view)\<close> from the moment the configuration, the schema and the rows are read:
  the two messages shown instead of a chart, or the warnings and the data handed to the
  drawing code.  Its four strategies are the same chain as in \<open>_processRawData\<close>.
\<close>

datatype draw_result =
  NoDataAvailable
| NoNumericData
| Rendered "string option" "console_msg list" "BoxplotDatum list"

definition draw :: "(string \<Rightarrow> jsnum) \<Rightarrow> row list option \<Rightarrow> ViewConfig \<Rightarrow> schema \<Rightarrow> draw_result" where
  "draw s2n rawData config sch =
     (case rawData of
        None \<Rightarrow> NoDataAvailable
      | Some rows \<Rightarrow>
          if length rows = 0 then NoDataAvailable
          else
            let cols = configColumns config;
                categoricalColumns =
                  filter (\<lambda>col. sch col = Some ''string'' \<or> sch col = Some ''date'') cols;
                numericColumns =
                  filter (\<lambda>col. sch col = Some ''integer'' \<or> sch col = Some ''float'') cols
            in if length numericColumns = 0 then NoNumericData
               else
                 let groupByColumn = fst (resolveGroupBy config categoricalColumns);
                     console = snd (resolveGroupBy config categoricalColumns)
                 in Rendered groupByColumn console
                      (renderBoxplot s2n rows groupByColumn numericColumns))"

section \<open>The specification's notions\<close>


text \<open>
  The columns of \<open>config.columns\<close> as section 4.1 of the specification classifies them:
  categorical when the schema type is string or date, numeric when it is integer or float.
\<close>

definition categoricalColumnsOf :: "schema \<Rightarrow> ViewConfig \<Rightarrow> string list" where
  "categoricalColumnsOf sch config =
     filter (\<lambda>col. sch col = Some ''string'' \<or> sch col = Some ''date'') (configColumns config)"

definition numericColumnsOf :: "schema \<Rightarrow> ViewConfig \<Rightarrow> string list" where
  "numericColumnsOf sch config =
     filter (\<lambda>col. sch col = Some ''integer'' \<or> sch col = Some ''float'') (configColumns config)"

text \<open>The keys of a list in the order of their first occurrence.\<close>

definition firstOccurrences :: "'k list \<Rightarrow> 'k list" where
  "firstOccurrences ks = rev (remdups (rev ks))"

text \<open>The fences of a statistics object: \<open>q1 - 1.5 * iqr\<close> and \<open>q3 + 1.5 * iqr\<close>.\<close>

definition lowerFence :: "BoxplotStats \<Rightarrow> jsnum" where
  "lowerFence st = js_sub (q1 st) (js_mul (Fin (3/2)) (js_sub (q3 st) (q1 st)))"

definition upperFence :: "BoxplotStats \<Rightarrow> jsnum" where
  "upperFence st = js_add (q3 st) (js_mul (Fin (3/2)) (js_sub (q3 st) (q1 st)))"

section \<open>Double arithmetic\<close>

text \<open>
  A JavaScript number is an IEEE 754 double.  The result of \<open>+\<close>, \<open>-\<close>, \<open>*\<close> or \<open>/\<close> on
  two finite doubles is the exact result rounded to a double, or an infinity when it
  overflows.  The functions of the sections above compute with the exact result.  Here the
  rounding is explicit: \<open>rnd x\<close> is the number an operation returns whose exact result is
  \<open>x\<close>.  It is a parameter; what is proved below holds for every rounding, so also for the
  one of the machine.  On NaN and the infinities the operations are the ones above.
\<close>

fun fl_add :: "(real \<Rightarrow> jsnum) \<Rightarrow> jsnum \<Rightarrow> jsnum \<Rightarrow> jsnum" where
  "fl_add rnd (Fin x) (Fin y) = rnd (x + y)"
| "fl_add rnd a b = js_add a b"

fun fl_sub :: "(real \<Rightarrow> jsnum) \<Rightarrow> jsnum \<Rightarrow> jsnum \<Rightarrow> jsnum" where
  "fl_sub rnd (Fin x) (Fin y) = rnd (x - y)"
| "fl_sub rnd a b = js_sub a b"

fun fl_mul :: "(real \<Rightarrow> jsnum) \<Rightarrow> jsnum \<Rightarrow> jsnum \<Rightarrow> jsnum" where
  "fl_mul rnd (Fin x) (Fin y) = rnd (x * y)"
| "fl_mul rnd a b = js_mul a b"

fun fl_div :: "(real \<Rightarrow> jsnum) \<Rightarrow> jsnum \<Rightarrow> jsnum \<Rightarrow> jsnum" where
  "fl_div rnd (Fin x) (Fin y) = (if y = 0 then js_div (Fin x) (Fin y) else rnd (x / y))"
| "fl_div rnd a b = js_div a b"

text \<open>
  Modelled from the spec: \<open>d3.quantile\<close> as above, the operations on the values rounded.
  The rank \<open>i = (n - 1) * p\<close> and the weight \<open>i - i0\<close> are not rounded: for the fractions
  0.25, 0.5 and 0.75 that the program passes, and an array of fewer than \<open>2^51\<close> values,
  both are exact in doubles.
\<close>

definition d3_quantile_fl :: "(real \<Rightarrow> jsnum) \<Rightarrow> jsnum list \<Rightarrow> real \<Rightarrow> jsnum option" where
  "d3_quantile_fl rnd vs p =
     (let n = length vs in
      if n = 0 then None
      else if p \<le> 0 \<or> n < 2 then Some (vs ! 0)
      else if p \<ge> 1 then Some (vs ! (n - 1))
      else
        let i = real (n - 1) * p;
            i0 = nat \<lfloor>i\<rfloor>;
            value0 = vs ! i0;
            value1 = vs ! (i0 + 1)
        in Some (fl_add rnd value0 (fl_mul rnd (fl_sub rnd value1 value0) (Fin (i - real i0)))))"

text \<open>
  Modelled from the spec: \<open>d3.mean\<close> as above; the sum is accumulated from the left, each
  addition and the division rounded.
\<close>

definition d3_mean_fl :: "(real \<Rightarrow> jsnum) \<Rightarrow> jsnum list \<Rightarrow> jsnum option" where
  "d3_mean_fl rnd vs =
     (let nums = filter (\<lambda>v. \<not> isNaN v) vs;
          count = length nums;
          sum = foldl (fl_add rnd) (Fin 0) nums
      in if count = 0 then None else Some (fl_div rnd sum (Fin (real count))))"

text \<open>\<open>_calculateBoxplotStats(values)\<close> of the plugin, in double arithmetic.\<close>

definition priv_calculateBoxplotStats_fl :: "(real \<Rightarrow> jsnum) \<Rightarrow> jsnum list \<Rightarrow> BoxplotStats option" where
  "priv_calculateBoxplotStats_fl rnd vs =
     (if length vs = 0 then None
      else
        let sortedValues = sort_ascending vs;
            n = length sortedValues
        in case (d3_quantile_fl rnd sortedValues (1/4), d3_quantile_fl rnd sortedValues (1/2),
                 d3_quantile_fl rnd sortedValues (3/4), d3_mean_fl rnd sortedValues) of
             (Some q1v, Some medianv, Some q3v, Some meanv) \<Rightarrow>
               let iqr = fl_sub rnd q3v q1v;
                   lowerFence = fl_sub rnd q1v (fl_mul rnd (Fin (3/2)) iqr);
                   upperFence = fl_add rnd q3v (fl_mul rnd (Fin (3/2)) iqr);
                   minv = or_else (find (\<lambda>v. js_ge v lowerFence) sortedValues)
                            (sortedValues ! 0);
                   maxv = or_else (find (\<lambda>v. js_le v upperFence) (rev sortedValues))
                            (sortedValues ! (n - 1));
                   outs = filter (\<lambda>v. js_lt v lowerFence \<or> js_gt v upperFence) sortedValues
               in Some \<lparr>min_stat = minv, max_stat = maxv, q1 = q1v, median = medianv,
                          q3 = q3v, mean = meanv, outliers = outs, count = n\<rparr>
           | _ \<Rightarrow> None)"

text \<open>\<open>calculateBoxplotStats(values)\<close> of the React integration, in double arithmetic.\<close>

definition calculateBoxplotStats_fl :: "(real \<Rightarrow> jsnum) \<Rightarrow> jsnum list \<Rightarrow> BoxplotStats option" where
  "calculateBoxplotStats_fl rnd vs =
     (let sorted_vs = sort_ascending vs;
          n = length sorted_vs
      in case (d3_quantile_fl rnd sorted_vs (1/4), d3_quantile_fl rnd sorted_vs (1/2),
               d3_quantile_fl rnd sorted_vs (3/4), d3_mean_fl rnd sorted_vs) of
           (Some q1v, Some medianv, Some q3v, Some meanv) \<Rightarrow>
             let iqr = fl_sub rnd q3v q1v;
                 lowerFence = fl_sub rnd q1v (fl_mul rnd (Fin (3/2)) iqr);
                 upperFence = fl_add rnd q3v (fl_mul rnd (Fin (3/2)) iqr);
                 outs = filter (\<lambda>v. js_lt v lowerFence \<or> js_gt v upperFence) sorted_vs;
                 nonOutliers = filter (\<lambda>v. js_ge v lowerFence \<and> js_le v upperFence) sorted_vs;
                 minv = (if length nonOutliers > 0 then nonOutliers ! 0 else sorted_vs ! 0);
                 maxv = (if length nonOutliers > 0 then nonOutliers ! (length nonOutliers - 1)
                         else sorted_vs ! (length sorted_vs - 1))
             in Some \<lparr>min_stat = minv, max_stat = maxv, q1 = q1v, median = medianv,
                        q3 = q3v, mean = meanv, outliers = outs, count = n\<rparr>
         | _ \<Rightarrow> None)"








text \<open>
  The rounding of the machine: IEEE 754 binary64, round to nearest, ties to even.  The
  finite doubles are the numbers \<open>m * 2^e\<close> with \<open>|m| < 2^53\<close> and
  \<open>-1074 \<le> e \<le> 971\<close>.  \<open>double_exponent x\<close> is the exponent of the doubles around
  \<open>x\<close>: the largest \<open>e\<close> of that range with \<open>2^(e + 52) \<le> |x|\<close>, and \<open>-1074\<close> when
  there is none.  A result that rounds to \<open>2^1024\<close> or more in magnitude is an infinity.
\<close>

definition round_half_even :: "real \<Rightarrow> int" where
  "round_half_even q =
     (let f = \<lfloor>q\<rfloor> in
      if q - of_int f < 1/2 then f
      else if q - of_int f > 1/2 then f + 1
      else if even f then f else f + 1)"

definition double_exponent :: "real \<Rightarrow> int" where
  "double_exponent x =
     fold (\<lambda>k e. if 2 powi (k + 52) \<le> \<bar>x\<bar> then k else e) [- 1074..971] (- 1074)"

definition round_double :: "real \<Rightarrow> jsnum" where
  "round_double x =
     (let e = double_exponent x;
          y = of_int (round_half_even (x / 2 powi e)) * 2 powi e
      in if y \<ge> 2 powi 1024 then PosInf
         else if y \<le> - (2 powi 1024) then NegInf
         else Fin y)"

section \<open>Numbers: basic facts\<close>

lemma isNaN_iff: "isNaN v \<longleftrightarrow> v = NaN"
  by (cases v) simp_all

lemma ascending_key_inj: "ascending_key a = ascending_key b \<Longrightarrow> a = b"
  by (cases a; cases b) simp_all

lemma js_le_key:
  "\<not> isNaN a \<Longrightarrow> \<not> isNaN b \<Longrightarrow> js_le a b \<longleftrightarrow> ascending_key a \<le> ascending_key b"
  by (cases a; cases b) (auto simp: js_le_def)

lemma js_lt_key:
  "\<not> isNaN a \<Longrightarrow> \<not> isNaN b \<Longrightarrow> js_lt a b \<longleftrightarrow> ascending_key a < ascending_key b"
  by (cases a; cases b) auto

lemma set_sort_ascending: "set (sort_ascending vs) = set vs"
  by (simp add: sort_ascending_def)

lemma length_sort_ascending: "length (sort_ascending vs) = length vs"
  by (simp add: sort_ascending_def)

lemma sorted_sort_ascending: "sorted (map ascending_key (sort_ascending vs))"
  by (simp add: sort_ascending_def)

lemma sort_ascending_idem: "sort_ascending (sort_ascending vs) = sort_ascending vs"
  by (simp add: sort_ascending_def sort_key_id_if_sorted)





section \<open>Quantiles of finite values\<close>






section \<open>The statistics functions on finite values\<close>


























section \<open>The statistics functions on any values\<close>

lemma priv_stats_outliers:
  assumes "priv_calculateBoxplotStats vs = Some st"
  shows "outliers st = filter (\<lambda>v. js_lt v (lowerFence st) \<or> js_gt v (upperFence st)) (sort_ascending vs)"
    and "count st = length vs"
  using assms
  by (auto simp: priv_calculateBoxplotStats_def Let_def lowerFence_def upperFence_def
      length_sort_ascending split: if_splits option.splits prod.splits)

lemma react_stats_outliers:
  assumes "calculateBoxplotStats vs = Some st"
  shows "outliers st = filter (\<lambda>v. js_lt v (lowerFence st) \<or> js_gt v (upperFence st)) (sort_ascending vs)"
    and "count st = length vs"
  using assms
  by (auto simp: calculateBoxplotStats_def Let_def lowerFence_def upperFence_def
      length_sort_ascending split: if_splits option.splits prod.splits)

lemma d3_quantile_returns: "vs \<noteq> [] \<Longrightarrow> \<exists>q. d3_quantile vs p = Some q"
  by (simp add: d3_quantile_def Let_def)

lemma d3_mean_returns:
  assumes "vs \<noteq> []" "NaN \<notin> set vs"
  shows "\<exists>m. d3_mean vs = Some m"
proof -
  have "filter (\<lambda>v. \<not> isNaN v) vs = vs" using assms(2) by (auto simp: isNaN_iff filter_id_conv)
  then show ?thesis using assms(1) by (simp add: d3_mean_def Let_def)
qed

lemma priv_calculateBoxplotStats_returns:
  assumes "vs \<noteq> []" "NaN \<notin> set vs"
  shows "\<exists>st. priv_calculateBoxplotStats vs = Some st"
proof -
  have ne: "sort_ascending vs \<noteq> []" using assms(1) by (metis length_0_conv length_sort_ascending)
  have nn: "NaN \<notin> set (sort_ascending vs)" using assms(2) by (simp add: set_sort_ascending)
  obtain a b c m where "d3_quantile (sort_ascending vs) (1/4) = Some a"
    "d3_quantile (sort_ascending vs) (1/2) = Some b" "d3_quantile (sort_ascending vs) (3/4) = Some c"
    "d3_mean (sort_ascending vs) = Some m"
    using d3_quantile_returns[OF ne] d3_mean_returns[OF ne nn] by metis
  then show ?thesis using assms(1) by (simp add: priv_calculateBoxplotStats_def Let_def)
qed

lemma calculateBoxplotStats_returns:
  assumes "vs \<noteq> []" "NaN \<notin> set vs"
  shows "\<exists>st. calculateBoxplotStats vs = Some st"
proof -
  have ne: "sort_ascending vs \<noteq> []" using assms(1) by (metis length_0_conv length_sort_ascending)
  have nn: "NaN \<notin> set (sort_ascending vs)" using assms(2) by (simp add: set_sort_ascending)
  obtain a b c m where "d3_quantile (sort_ascending vs) (1/4) = Some a"
    "d3_quantile (sort_ascending vs) (1/2) = Some b" "d3_quantile (sort_ascending vs) (3/4) = Some c"
    "d3_mean (sort_ascending vs) = Some m"
    using d3_quantile_returns[OF ne] d3_mean_returns[OF ne nn] by metis
  then show ?thesis by (simp add: calculateBoxplotStats_def Let_def)
qed



lemma sorted_wrt_js_le:
  assumes "sorted (map ascending_key vs)" "NaN \<notin> set vs"
  shows "sorted_wrt js_le vs"
proof -
  have srt: "sorted_wrt (\<lambda>a b. ascending_key a \<le> ascending_key b) vs"
    using assms(1) by (simp add: sorted_map)
  have "js_le x y" if "x \<in> set vs" "y \<in> set vs" "ascending_key x \<le> ascending_key y" for x y
  proof -
    have "\<not> isNaN x" "\<not> isNaN y" using that(1,2) assms(2) by (auto simp: isNaN_iff)
    then show ?thesis using that(3) by (simp add: js_le_key)
  qed
  then show ?thesis using srt by (rule sorted_wrt_mono_rel)
qed

lemma metricValues_no_NaN: "NaN \<notin> set (metricValues s2n rows m)"
  by (auto simp: metricValues_def set_sort_ascending isNaN_iff)

lemma metricValues_sorted: "sorted (map ascending_key (metricValues s2n rows m))"
  by (simp add: metricValues_def sorted_sort_ascending)

lemma metricValues_sort_id: "sort_ascending (metricValues s2n rows m) = metricValues s2n rows m"
  by (simp add: metricValues_def sort_ascending_idem)

lemma datumValues_eq: "datumValues s2n rows m = metricValues s2n rows m"
  by (simp add: datumValues_def metricValues_def)

lemma cellRecord_elem:
  assumes "r \<in> set (cellRecord s2n key rows (i, m))"
  shows "r = \<lparr>label = key, metric = m, metricIndex = i, groupKey = key,
              values = metricValues s2n rows m,
              stats = priv_calculateBoxplotStats (metricValues s2n rows m)\<rparr>"
    and "metricValues s2n rows m \<noteq> []"
  using assms by (auto simp: cellRecord_def Let_def split: if_splits)

lemma cellDatum_elem:
  assumes "r \<in> set (cellDatum s2n grp rows m)"
  shows "r = \<lparr>d_group = grp, d_metric = m, d_values = metricValues s2n rows m,
              d_stats = calculateBoxplotStats (metricValues s2n rows m)\<rparr>"
    and "metricValues s2n rows m \<noteq> []"
  using assms by (auto simp: cellDatum_def Let_def datumValues_eq split: if_splits)

lemma outliers_subseq_sorted:
  assumes "outliers st = filter P (sort_ascending vs)"
  shows "subseq (outliers st) (sort_ascending vs)"
    and "sorted (map ascending_key (outliers st))"
  using assms by (simp_all add: sorted_filter sorted_sort_ascending)

lemmas stats_eval = priv_calculateBoxplotStats_def calculateBoxplotStats_def sort_ascending_def
  d3_quantile_def d3_mean_def js_sub_def js_ge_def js_le_def js_gt_def or_else_def Let_def

lemma priv_stats_single:
  "priv_calculateBoxplotStats [Fin v]
     = Some \<lparr>min_stat = Fin v, max_stat = Fin v, q1 = Fin v, median = Fin v, q3 = Fin v,
             mean = Fin v, outliers = [], count = 1\<rparr>"
  by (simp add: stats_eval)

lemma react_stats_single:
  "calculateBoxplotStats [Fin v]
     = Some \<lparr>min_stat = Fin v, max_stat = Fin v, q1 = Fin v, median = Fin v, q3 = Fin v,
             mean = Fin v, outliers = [], count = 1\<rparr>"
  by (simp add: stats_eval)

lemma stats_of_infinities:
  "priv_calculateBoxplotStats [NegInf, PosInf]
     = Some \<lparr>min_stat = NegInf, max_stat = PosInf, q1 = NaN, median = NaN, q3 = NaN,
             mean = NaN, outliers = [], count = 2\<rparr>"
  by (simp add: stats_eval)

section \<open>Grouping and the records of the plugin\<close>

lemma firstOccurrences_snoc:
  "firstOccurrences (ks @ [k]) = (if k \<in> set ks then firstOccurrences ks else firstOccurrences ks @ [k])"
  by (simp add: firstOccurrences_def)

lemma set_firstOccurrences: "set (firstOccurrences ks) = set ks"
  by (simp add: firstOccurrences_def)

lemma distinct_firstOccurrences: "distinct (firstOccurrences ks)"
  by (simp add: firstOccurrences_def)

lemma group_insert_map:
  assumes "distinct ks"
  shows "group_insert k d (map (\<lambda>k'. (k', f k')) ks) =
    (if k \<in> set ks then map (\<lambda>k'. (k', if k' = k then f k' @ [d] else f k')) ks
     else map (\<lambda>k'. (k', f k')) ks @ [(k, [d])])"
  using assms by (induction ks) auto

lemma d3_group_snoc: "d3_group (data @ [d]) key = group_insert (key d) d (d3_group data key)"
  by (simp add: d3_group_def)

lemma d3_group_char:
  "d3_group data key =
     map (\<lambda>k. (k, filter (\<lambda>d. key d = k) data)) (firstOccurrences (map key data))"
proof (induction data rule: rev_induct)
  case Nil
  show ?case by (simp add: d3_group_def firstOccurrences_def)
next
  case (snoc x xs)
  define ks where "ks = firstOccurrences (map key xs)"
  have dk: "distinct ks" and sk: "set ks = key ` set xs"
    by (simp_all add: ks_def distinct_firstOccurrences set_firstOccurrences)
  have ih: "d3_group xs key = map (\<lambda>k. (k, filter (\<lambda>d. key d = k) xs)) ks"
    using snoc by (simp add: ks_def)
  show ?case
  proof (cases "key x \<in> set ks")
    case True
    then have fo: "firstOccurrences (map key (xs @ [x])) = ks"
      using sk by (simp add: firstOccurrences_snoc ks_def)
    show ?thesis
      unfolding d3_group_snoc ih group_insert_map[OF dk] fo using True by auto
  next
    case False
    then have fo: "firstOccurrences (map key (xs @ [x])) = ks @ [key x]"
      using sk by (simp add: firstOccurrences_snoc ks_def)
    have "\<forall>d\<in>set xs. key d \<noteq> key x" using False sk by (metis imageI)
    then have none: "filter (\<lambda>d. key d = key x) xs = []"
      by (simp add: filter_empty_conv)
    show ?thesis
      unfolding d3_group_snoc ih group_insert_map[OF dk] fo using False none by auto
  qed
qed

lemma classifyColumns_foldl:
  "foldl (classifyStep sch) (ns, cs) cols =
     (ns @ filter (\<lambda>c. sch c = Some ''float'' \<or> sch c = Some ''integer'') cols,
      cs @ filter (\<lambda>c. sch c = Some ''string'') cols)"
  by (induction cols arbitrary: ns cs) (auto simp: classifyStep_def)

lemma classifyColumns_filter:
  "classifyColumns sch cols =
     (filter (\<lambda>c. sch c = Some ''float'' \<or> sch c = Some ''integer'') cols,
      filter (\<lambda>c. sch c = Some ''string'') cols)"
  by (simp add: classifyColumns_def classifyColumns_foldl)

lemma groupedRecords_char:
  "groupedRecords s2n data g nums =
     concat (map (\<lambda>k. concat (map (cellRecord s2n k (filter (\<lambda>d. groupKeyOf g d = k) data))
                                  (enumerate 0 nums)))
                 (firstOccurrences (map (groupKeyOf g) data)))"
  by (simp add: groupedRecords_def d3_group_char comp_def)

lemma in_groupedRecords:
  "r \<in> set (groupedRecords s2n data g nums) \<longleftrightarrow>
     (\<exists>d\<in>set data. \<exists>im\<in>set (enumerate 0 nums).
        r \<in> set (cellRecord s2n (groupKeyOf g d)
                    (filter (\<lambda>d'. groupKeyOf g d' = groupKeyOf g d) data) im))"
  by (auto simp: groupedRecords_char set_firstOccurrences)

lemma in_ungroupedRecords:
  "r \<in> set (ungroupedRecords s2n data nums) \<longleftrightarrow>
     (\<exists>im\<in>set (enumerate 0 nums). r \<in> set (cellRecord s2n (JStr (snd im)) data im))"
  by (auto simp: ungroupedRecords_def)

lemma priv_processRawData_records:
  "snd (priv_processRawData s2n data config sch) =
     (let nums = fst (classifyColumns sch (configColumns config)) in
      if nums = [] then []
      else case fst (resolveGroupBy config (snd (classifyColumns sch (configColumns config)))) of
             None \<Rightarrow> ungroupedRecords s2n data nums
           | Some g \<Rightarrow> if g \<noteq> [] then groupedRecords s2n data g nums
                      else ungroupedRecords s2n data nums)"
  by (auto simp: priv_processRawData_def configColumns_def Let_def split: option.splits)

lemma priv_processRawData_cases:
  "(fst (classifyColumns sch (configColumns config)) = []
      \<and> snd (priv_processRawData s2n data config sch) = [])
   \<or> (fst (classifyColumns sch (configColumns config)) \<noteq> []
      \<and> snd (priv_processRawData s2n data config sch)
         = ungroupedRecords s2n data (fst (classifyColumns sch (configColumns config))))
   \<or> (\<exists>g. fst (classifyColumns sch (configColumns config)) \<noteq> []
      \<and> fst (resolveGroupBy config (snd (classifyColumns sch (configColumns config)))) = Some g
      \<and> g \<noteq> []
      \<and> snd (priv_processRawData s2n data config sch)
         = groupedRecords s2n data g (fst (classifyColumns sch (configColumns config))))"
proof (cases "fst (resolveGroupBy config (snd (classifyColumns sch (configColumns config))))")
  case None
  then show ?thesis by (simp add: priv_processRawData_records Let_def)
next
  case (Some g)
  then show ?thesis by (cases "g = []") (simp_all add: priv_processRawData_records Let_def)
qed

lemma resolveGroupBy_explicit:
  "group_by config = Some (g # gs) \<Longrightarrow> resolveGroupBy config cats = (Some g, [])"
  "group_by config = None \<or> group_by config = Some [] \<Longrightarrow> cats = [c]
     \<Longrightarrow> resolveGroupBy config cats = (Some c, [])"
  "group_by config = None \<or> group_by config = Some [] \<Longrightarrow> cats = c # c' # cs
     \<Longrightarrow> resolveGroupBy config cats = (Some c, [WarnMultipleCategorical cats])"
  "group_by config = None \<or> group_by config = Some [] \<Longrightarrow> cats = []
     \<Longrightarrow> resolveGroupBy config cats = (None, [])"
  by (auto simp: resolveGroupBy_def)

lemma cellRecord_fields:
  assumes "r \<in> set (cellRecord s2n key rows im)"
  shows "groupKey r = key" "label r = key" "metric r = snd im" "metricIndex r = fst im"
    "values r = metricValues s2n rows (snd im)" "values r \<noteq> []"
    "stats r = priv_calculateBoxplotStats (values r)"
  using assms by (cases im; auto simp: cellRecord_def Let_def split: if_splits)+

lemma cellDatum_fields:
  assumes "r \<in> set (cellDatum s2n grp rows m)"
  shows "d_group r = grp" "d_metric r = m" "d_values r = metricValues s2n rows m"
    "d_values r \<noteq> []" "d_stats r = calculateBoxplotStats (d_values r)"
  using assms by (auto simp: cellDatum_def Let_def datumValues_eq split: if_splits)

lemma renderBoxplot_grouped:
  "g \<noteq> [] \<Longrightarrow> renderBoxplot s2n data (Some g) ms =
     concat (map (\<lambda>k. concat (map (cellDatum s2n k (filter (\<lambda>d. getField d g = k) data)) ms))
                 (firstOccurrences (map (\<lambda>d. getField d g) data)))"
  by (simp add: renderBoxplot_def d3_group_char comp_def)

lemma draw_Rendered:
  assumes "draw s2n (Some rows) config sch = Rendered g con ds"
  shows "g = fst (resolveGroupBy config
                (filter (\<lambda>col. sch col = Some ''string'' \<or> sch col = Some ''date'') (configColumns config)))"
    and "con = snd (resolveGroupBy config
                (filter (\<lambda>col. sch col = Some ''string'' \<or> sch col = Some ''date'') (configColumns config)))"
    and "ds = renderBoxplot s2n rows g
                (filter (\<lambda>col. sch col = Some ''integer'' \<or> sch col = Some ''float'') (configColumns config))"
    and "rows \<noteq> []"
    and "filter (\<lambda>col. sch col = Some ''integer'' \<or> sch col = Some ''float'') (configColumns config) \<noteq> []"
  using assms by (auto simp: draw_def Let_def configColumns_def split: if_splits)

lemmas pipeline_eval = priv_processRawData_def priv_processDataForBoxplot_def classifyColumns_def
  classifyStep_def resolveGroupBy_def groupedRecords_def ungroupedRecords_def cellRecord_def
  metricValues_def groupKeyOf_def getField_def d3_group_def enumerate_eq_zip
  draw_def renderBoxplot_def cellDatum_def datumValues_def configColumns_def Let_def




lemma set_metricValues:
  "set (metricValues s2n rows m)
     = {v. \<not> isNaN v \<and> (\<exists>d\<in>set rows. v = toNumber s2n (getField d m))}"
  by (auto simp: metricValues_def set_sort_ascending)

lemma cellRecord_nonempty:
  assumes "metricValues s2n rows m \<noteq> []"
  shows "\<exists>r. r \<in> set (cellRecord s2n key rows (i, m))"
  using assms by (simp add: cellRecord_def Let_def)

lemma in_enumerate_snd: "m \<in> set nums \<Longrightarrow> \<exists>i. (i, m) \<in> set (enumerate n nums)"
proof (induction nums arbitrary: n)
  case Nil
  then show ?case by simp
next
  case (Cons a nums)
  show ?case
  proof (cases "m = a")
    case True
    then show ?thesis by auto
  next
    case False
    then have "m \<in> set nums" using Cons.prems by simp
    from Cons.IH[OF this, of "Suc n"] show ?thesis by auto
  qed
qed

lemma groupedRecords_values:
  assumes "r \<in> set (groupedRecords s2n data g nums)"
  shows "values r = metricValues s2n (filter (\<lambda>d. groupKeyOf g d = groupKey r) data) (metric r)"
proof -
  obtain d im where cr: "r \<in> set (cellRecord s2n (groupKeyOf g d)
      (filter (\<lambda>d'. groupKeyOf g d' = groupKeyOf g d) data) im)"
    using assms unfolding in_groupedRecords by blast
  show ?thesis
    using cellRecord_fields(1,3,5)[OF cr] by simp
qed

lemma ungroupedRecords_values:
  assumes "r \<in> set (ungroupedRecords s2n data nums)"
  shows "values r = metricValues s2n data (metric r)"
proof -
  obtain im where cr: "r \<in> set (cellRecord s2n (JStr (snd im)) data im)"
    using assms unfolding in_ungroupedRecords by blast
  show ?thesis using cellRecord_fields(3,5)[OF cr] by simp
qed

lemma groupedRecords_cover:
  assumes "m \<in> set nums"
  shows "(\<Union>r\<in>{r \<in> set (groupedRecords s2n data g nums). metric r = m}. set (values r))
     = {v. \<not> isNaN v \<and> (\<exists>d\<in>set data. v = toNumber s2n (getField d m))}"
proof (intro set_eqI iffI)
  fix v
  assume "v \<in> (\<Union>r\<in>{r \<in> set (groupedRecords s2n data g nums). metric r = m}. set (values r))"
  then obtain r where r: "r \<in> set (groupedRecords s2n data g nums)" "metric r = m" "v \<in> set (values r)"
    by blast
  then have "v \<in> set (metricValues s2n (filter (\<lambda>d. groupKeyOf g d = groupKey r) data) m)"
    using groupedRecords_values[OF r(1)] by simp
  then show "v \<in> {v. \<not> isNaN v \<and> (\<exists>d\<in>set data. v = toNumber s2n (getField d m))}"
    unfolding set_metricValues by auto
next
  fix v
  assume "v \<in> {v. \<not> isNaN v \<and> (\<exists>d\<in>set data. v = toNumber s2n (getField d m))}"
  then obtain d where d: "d \<in> set data" "v = toNumber s2n (getField d m)" "\<not> isNaN v" by blast
  define rows where "rows = filter (\<lambda>d'. groupKeyOf g d' = groupKeyOf g d) data"
  have "d \<in> set rows" using d(1) by (simp add: rows_def)
  then have vin: "v \<in> set (metricValues s2n rows m)" using d unfolding set_metricValues by blast
  then have "metricValues s2n rows m \<noteq> []" by auto
  moreover obtain i where i: "(i, m) \<in> set (enumerate 0 nums)"
    using in_enumerate_snd[OF assms] by blast
  ultimately obtain r where cr: "r \<in> set (cellRecord s2n (groupKeyOf g d) rows (i, m))"
    using cellRecord_nonempty by blast
  have "r \<in> set (groupedRecords s2n data g nums)"
    unfolding in_groupedRecords using d(1) i cr rows_def by blast
  moreover have "metric r = m" "values r = metricValues s2n rows m"
    using cellRecord_fields(3,5)[OF cr] by simp_all
  ultimately show "v \<in> (\<Union>r\<in>{r \<in> set (groupedRecords s2n data g nums). metric r = m}. set (values r))"
    using vin by auto
qed

lemma ungroupedRecords_cover:
  assumes "m \<in> set nums"
  shows "(\<Union>r\<in>{r \<in> set (ungroupedRecords s2n data nums). metric r = m}. set (values r))
     = {v. \<not> isNaN v \<and> (\<exists>d\<in>set data. v = toNumber s2n (getField d m))}"
proof (intro set_eqI iffI)
  fix v
  assume "v \<in> (\<Union>r\<in>{r \<in> set (ungroupedRecords s2n data nums). metric r = m}. set (values r))"
  then obtain r where r: "r \<in> set (ungroupedRecords s2n data nums)" "metric r = m" "v \<in> set (values r)"
    by blast
  then have "v \<in> set (metricValues s2n data m)"
    using ungroupedRecords_values[OF r(1)] by simp
  then show "v \<in> {v. \<not> isNaN v \<and> (\<exists>d\<in>set data. v = toNumber s2n (getField d m))}"
    unfolding set_metricValues by auto
next
  fix v
  assume "v \<in> {v. \<not> isNaN v \<and> (\<exists>d\<in>set data. v = toNumber s2n (getField d m))}"
  then have vin: "v \<in> set (metricValues s2n data m)" unfolding set_metricValues by blast
  then have "metricValues s2n data m \<noteq> []" by auto
  moreover obtain i where i: "(i, m) \<in> set (enumerate 0 nums)"
    using in_enumerate_snd[OF assms] by blast
  ultimately obtain r where cr: "r \<in> set (cellRecord s2n (JStr m) data (i, m))"
    using cellRecord_nonempty by blast
  have "r \<in> set (ungroupedRecords s2n data nums)"
    unfolding in_ungroupedRecords using i cr by force
  moreover have "metric r = m" "values r = metricValues s2n data m"
    using cellRecord_fields(3,5)[OF cr] by simp_all
  ultimately show "v \<in> (\<Union>r\<in>{r \<in> set (ungroupedRecords s2n data nums). metric r = m}. set (values r))"
    using vin by auto
qed

lemma priv_processRawData_cover:
  assumes "m \<in> set (fst (classifyColumns sch (configColumns config)))"
  shows "(\<Union>r\<in>{r \<in> set (snd (priv_processRawData s2n data config sch)). metric r = m}. set (values r))
     = {v. \<not> isNaN v \<and> (\<exists>d\<in>set data. v = toNumber s2n (getField d m))}"
proof -
  have ne: "fst (classifyColumns sch (configColumns config)) \<noteq> []" using assms by auto
  from priv_processRawData_cases[of sch config s2n data] ne
  consider "snd (priv_processRawData s2n data config sch)
         = ungroupedRecords s2n data (fst (classifyColumns sch (configColumns config)))"
    | g where "snd (priv_processRawData s2n data config sch)
         = groupedRecords s2n data g (fst (classifyColumns sch (configColumns config)))"
    by blast
  then show ?thesis
  proof cases
    case 1
    show ?thesis unfolding 1 by (rule ungroupedRecords_cover[OF assms])
  next
    case 2
    show ?thesis unfolding 2 by (rule groupedRecords_cover[OF assms])
  qed
qed

lemma cellRecord_pairs:
  "map (\<lambda>r. (groupKey r, metric r)) (cellRecord s2n k rows (i, m))
     = (if metricValues s2n rows m \<noteq> [] then [(k, m)] else [])"
  by (simp add: cellRecord_def Let_def)

lemma cell_pairs_enumerate:
  "map (\<lambda>r. (groupKey r, metric r)) (concat (map (cellRecord s2n k rows) (enumerate n nums)))
     = map (Pair k) (filter (\<lambda>m. metricValues s2n rows m \<noteq> []) nums)"
  by (induction nums arbitrary: n) (simp_all add: cellRecord_pairs)

lemma cell_pairs_enumerate_inner:
  "concat (map (\<lambda>im. map (\<lambda>r. (groupKey r, metric r)) (cellRecord s2n k rows im)) (enumerate n nums))
     = map (Pair k) (filter (\<lambda>m. metricValues s2n rows m \<noteq> []) nums)"
  using cell_pairs_enumerate[of s2n k rows n nums] by (simp add: map_concat comp_def)

lemma groupedRecords_pairs:
  "map (\<lambda>r. (groupKey r, metric r)) (groupedRecords s2n data g nums)
     = concat (map (\<lambda>k. map (Pair k)
          (filter (\<lambda>m. metricValues s2n (filter (\<lambda>d. groupKeyOf g d = k) data) m \<noteq> []) nums))
        (firstOccurrences (map (groupKeyOf g) data)))"
  unfolding groupedRecords_char
  by (simp add: map_concat comp_def cell_pairs_enumerate_inner)

lemma ungroupedRecords_pairs_gen:
  "map (\<lambda>r. (groupKey r, metric r))
       (concat (map (\<lambda>im. cellRecord s2n (JStr (snd im)) data im) (enumerate n nums)))
     = map (\<lambda>m. (JStr m, m)) (filter (\<lambda>m. metricValues s2n data m \<noteq> []) nums)"
  by (induction nums arbitrary: n) (simp_all add: cellRecord_pairs)

lemma ungroupedRecords_pairs:
  "map (\<lambda>r. (groupKey r, metric r)) (ungroupedRecords s2n data nums)
     = map (\<lambda>m. (JStr m, m)) (filter (\<lambda>m. metricValues s2n data m \<noteq> []) nums)"
  unfolding ungroupedRecords_def by (rule ungroupedRecords_pairs_gen)

lemma distinct_concat_pairs:
  assumes "distinct ks" "\<And>k. distinct (f k)"
  shows "distinct (concat (map (\<lambda>k. map (Pair k) (f k)) ks))"
  using assms(1)
proof (induction ks)
  case Nil
  show ?case by simp
next
  case (Cons k ks)
  have "distinct (map (Pair k) (f k))" using assms(2) by (simp add: distinct_map inj_on_def)
  moreover have "set (map (Pair k) (f k)) \<inter> set (concat (map (\<lambda>k. map (Pair k) (f k)) ks)) = {}"
    using Cons.prems by auto
  ultimately show ?case using Cons by simp
qed

lemma groupedRecords_distinct:
  assumes "distinct nums"
  shows "distinct (map (\<lambda>r. (groupKey r, metric r)) (groupedRecords s2n data g nums))"
  unfolding groupedRecords_pairs
  by (rule distinct_concat_pairs) (simp_all add: distinct_firstOccurrences assms)

lemma ungroupedRecords_distinct:
  assumes "distinct nums"
  shows "distinct (map (\<lambda>r. (groupKey r, metric r)) (ungroupedRecords s2n data nums))"
  unfolding ungroupedRecords_pairs using assms by (simp add: distinct_map inj_on_def)

section \<open>The records of the React integration\<close>

lemma in_renderBoxplot_grouped:
  assumes "g \<noteq> []"
  shows "dt \<in> set (renderBoxplot s2n data (Some g) ms) \<longleftrightarrow>
     (\<exists>d\<in>set data. \<exists>m\<in>set ms.
        dt \<in> set (cellDatum s2n (getField d g)
                     (filter (\<lambda>d'. getField d' g = getField d g) data) m))"
  using assms by (auto simp: renderBoxplot_grouped set_firstOccurrences)

lemma renderBoxplot_ungrouped:
  assumes "gbc = None \<or> gbc = Some []"
  shows "renderBoxplot s2n data gbc ms = concat (map (\<lambda>m. cellDatum s2n (JStr m) data m) ms)"
  using assms by (auto simp: renderBoxplot_def)

lemma in_renderBoxplot_ungrouped:
  assumes "gbc = None \<or> gbc = Some []"
  shows "dt \<in> set (renderBoxplot s2n data gbc ms) \<longleftrightarrow>
     (\<exists>m\<in>set ms. dt \<in> set (cellDatum s2n (JStr m) data m))"
  unfolding renderBoxplot_ungrouped[OF assms] by auto

lemma renderBoxplot_grouped_values:
  assumes "g \<noteq> []" "dt \<in> set (renderBoxplot s2n data (Some g) ms)"
  shows "d_values dt = metricValues s2n (filter (\<lambda>d. getField d g = d_group dt) data) (d_metric dt)"
    and "\<exists>d\<in>set data. d_group dt = getField d g"
proof -
  obtain d m where d: "d \<in> set data" and cd: "dt \<in> set (cellDatum s2n (getField d g)
      (filter (\<lambda>d'. getField d' g = getField d g) data) m)"
    using assms(2) unfolding in_renderBoxplot_grouped[OF assms(1)] by blast
  show "d_values dt = metricValues s2n (filter (\<lambda>d. getField d g = d_group dt) data) (d_metric dt)"
    using cellDatum_fields(1,2,3)[OF cd] by simp
  show "\<exists>d\<in>set data. d_group dt = getField d g"
    using cellDatum_fields(1)[OF cd] d by blast
qed

lemma renderBoxplot_ungrouped_values:
  assumes "gbc = None \<or> gbc = Some []" "dt \<in> set (renderBoxplot s2n data gbc ms)"
  shows "d_values dt = metricValues s2n data (d_metric dt)" and "d_group dt = JStr (d_metric dt)"
proof -
  obtain m where cd: "dt \<in> set (cellDatum s2n (JStr m) data m)"
    using assms(2) unfolding in_renderBoxplot_ungrouped[OF assms(1)] by blast
  show "d_values dt = metricValues s2n data (d_metric dt)"
    using cellDatum_fields(2,3)[OF cd] by simp
  show "d_group dt = JStr (d_metric dt)"
    using cellDatum_fields(1,2)[OF cd] by simp
qed

lemma cellDatum_nonempty:
  assumes "metricValues s2n rows m \<noteq> []"
  shows "\<exists>dt. dt \<in> set (cellDatum s2n grp rows m)"
  using assms by (simp add: cellDatum_def Let_def datumValues_eq)

lemma renderBoxplot_cover:
  assumes "m \<in> set ms"
  shows "(\<Union>dt\<in>{dt \<in> set (renderBoxplot s2n data gbc ms). d_metric dt = m}. set (d_values dt))
     = {v. \<not> isNaN v \<and> (\<exists>d\<in>set data. v = toNumber s2n (getField d m))}"
proof (cases "gbc = None \<or> gbc = Some []")
  case True
  show ?thesis
  proof (intro set_eqI iffI)
    fix v
    assume "v \<in> (\<Union>dt\<in>{dt \<in> set (renderBoxplot s2n data gbc ms). d_metric dt = m}. set (d_values dt))"
    then obtain dt where r: "dt \<in> set (renderBoxplot s2n data gbc ms)" "d_metric dt = m"
      "v \<in> set (d_values dt)" by blast
    then have "v \<in> set (metricValues s2n data m)"
      using renderBoxplot_ungrouped_values(1)[OF True r(1)] by simp
    then show "v \<in> {v. \<not> isNaN v \<and> (\<exists>d\<in>set data. v = toNumber s2n (getField d m))}"
      unfolding set_metricValues by auto
  next
    fix v
    assume "v \<in> {v. \<not> isNaN v \<and> (\<exists>d\<in>set data. v = toNumber s2n (getField d m))}"
    then have vin: "v \<in> set (metricValues s2n data m)" unfolding set_metricValues by blast
    then have "metricValues s2n data m \<noteq> []" by auto
    then obtain dt where cd: "dt \<in> set (cellDatum s2n (JStr m) data m)"
      using cellDatum_nonempty by blast
    have "dt \<in> set (renderBoxplot s2n data gbc ms)"
      unfolding in_renderBoxplot_ungrouped[OF True] using assms cd by blast
    moreover have "d_metric dt = m" "d_values dt = metricValues s2n data m"
      using cellDatum_fields(2,3)[OF cd] by simp_all
    ultimately show "v \<in> (\<Union>dt\<in>{dt \<in> set (renderBoxplot s2n data gbc ms). d_metric dt = m}. set (d_values dt))"
      using vin by auto
  qed
next
  case False
  then obtain g where g: "gbc = Some g" "g \<noteq> []" by (cases gbc) auto
  show ?thesis
  proof (intro set_eqI iffI)
    fix v
    assume "v \<in> (\<Union>dt\<in>{dt \<in> set (renderBoxplot s2n data gbc ms). d_metric dt = m}. set (d_values dt))"
    then obtain dt where r: "dt \<in> set (renderBoxplot s2n data (Some g) ms)" "d_metric dt = m"
      "v \<in> set (d_values dt)" using g by blast
    then have "v \<in> set (metricValues s2n (filter (\<lambda>d. getField d g = d_group dt) data) m)"
      using renderBoxplot_grouped_values(1)[OF g(2) r(1)] by simp
    then show "v \<in> {v. \<not> isNaN v \<and> (\<exists>d\<in>set data. v = toNumber s2n (getField d m))}"
      unfolding set_metricValues by auto
  next
    fix v
    assume "v \<in> {v. \<not> isNaN v \<and> (\<exists>d\<in>set data. v = toNumber s2n (getField d m))}"
    then obtain d where d: "d \<in> set data" "v = toNumber s2n (getField d m)" "\<not> isNaN v" by blast
    define rows where "rows = filter (\<lambda>d'. getField d' g = getField d g) data"
    have "d \<in> set rows" using d(1) by (simp add: rows_def)
    then have vin: "v \<in> set (metricValues s2n rows m)" using d unfolding set_metricValues by blast
    then have "metricValues s2n rows m \<noteq> []" by auto
    then obtain dt where cd: "dt \<in> set (cellDatum s2n (getField d g) rows m)"
      using cellDatum_nonempty by blast
    have "dt \<in> set (renderBoxplot s2n data gbc ms)"
      unfolding g(1) in_renderBoxplot_grouped[OF g(2)] using d(1) assms cd rows_def by blast
    moreover have "d_metric dt = m" "d_values dt = metricValues s2n rows m"
      using cellDatum_fields(2,3)[OF cd] by simp_all
    ultimately show "v \<in> (\<Union>dt\<in>{dt \<in> set (renderBoxplot s2n data gbc ms). d_metric dt = m}. set (d_values dt))"
      using vin by auto
  qed
qed

lemma cellDatum_pairs:
  "map (\<lambda>dt. (d_group dt, d_metric dt)) (cellDatum s2n k rows m)
     = (if metricValues s2n rows m \<noteq> [] then [(k, m)] else [])"
  by (simp add: cellDatum_def Let_def datumValues_eq)

lemma cellDatum_pairs_metrics:
  "concat (map (\<lambda>m. map (\<lambda>dt. (d_group dt, d_metric dt)) (cellDatum s2n k rows m)) ms)
     = map (Pair k) (filter (\<lambda>m. metricValues s2n rows m \<noteq> []) ms)"
  by (induction ms) (simp_all add: cellDatum_pairs)

lemma renderBoxplot_grouped_pairs:
  assumes "g \<noteq> []"
  shows "map (\<lambda>dt. (d_group dt, d_metric dt)) (renderBoxplot s2n data (Some g) ms)
     = concat (map (\<lambda>k. map (Pair k)
          (filter (\<lambda>m. metricValues s2n (filter (\<lambda>d. getField d g = k) data) m \<noteq> []) ms))
        (firstOccurrences (map (\<lambda>d. getField d g) data)))"
  unfolding renderBoxplot_grouped[OF assms]
  by (simp add: map_concat comp_def cellDatum_pairs_metrics)

lemma renderBoxplot_ungrouped_pairs:
  assumes "gbc = None \<or> gbc = Some []"
  shows "map (\<lambda>dt. (d_group dt, d_metric dt)) (renderBoxplot s2n data gbc ms)
     = map (\<lambda>m. (JStr m, m)) (filter (\<lambda>m. metricValues s2n data m \<noteq> []) ms)"
  unfolding renderBoxplot_ungrouped[OF assms]
  by (induction ms) (simp_all add: cellDatum_pairs)

lemma renderBoxplot_distinct:
  assumes "distinct ms"
  shows "distinct (map (\<lambda>dt. (d_group dt, d_metric dt)) (renderBoxplot s2n data gbc ms))"
proof (cases "gbc = None \<or> gbc = Some []")
  case True
  show ?thesis unfolding renderBoxplot_ungrouped_pairs[OF True]
    using assms by (simp add: distinct_map inj_on_def)
next
  case False
  then obtain g where g: "gbc = Some g" "g \<noteq> []" by (cases gbc) auto
  show ?thesis unfolding g(1) renderBoxplot_grouped_pairs[OF g(2)]
    by (rule distinct_concat_pairs) (simp_all add: distinct_firstOccurrences assms)
qed

section \<open>The scenarios of the specification, run on the plugin\<close>

lemma scenario_two_groups_one_metric:
  "priv_processDataForBoxplot (\<lambda>s. NaN)
     (Some [[''region'' \<mapsto> JStr ''N'', ''sales'' \<mapsto> JNum (Fin 10)],
            [''region'' \<mapsto> JStr ''N'', ''sales'' \<mapsto> JNum (Fin 20)],
            [''region'' \<mapsto> JStr ''S'', ''sales'' \<mapsto> JNum (Fin 5)]])
     \<lparr>columns = Some [''region'', ''sales''], group_by = None\<rparr>
     [''region'' \<mapsto> ''string'', ''sales'' \<mapsto> ''float'']
   = ([],
      [\<lparr>label = JStr ''N'', metric = ''sales'', metricIndex = 0, groupKey = JStr ''N'',
         values = [Fin 10, Fin 20],
         stats = Some \<lparr>min_stat = Fin 10, max_stat = Fin 20, q1 = Fin (25/2), median = Fin 15,
           q3 = Fin (35/2), mean = Fin 15, outliers = [], count = 2\<rparr>\<rparr>,
       \<lparr>label = JStr ''S'', metric = ''sales'', metricIndex = 0, groupKey = JStr ''S'',
         values = [Fin 5],
         stats = Some \<lparr>min_stat = Fin 5, max_stat = Fin 5, q1 = Fin 5, median = Fin 5,
           q3 = Fin 5, mean = Fin 5, outliers = [], count = 1\<rparr>\<rparr>])"
  by (simp add: pipeline_eval stats_eval)

lemma scenario_no_categorical_column:
  "map (\<lambda>r. (groupKey r, metric r, values r))
     (snd (priv_processDataForBoxplot (\<lambda>s. NaN)
        (Some [[''sales'' \<mapsto> JNum (Fin 3), ''profit'' \<mapsto> JNum (Fin 1)],
               [''sales'' \<mapsto> JNum (Fin 2), ''profit'' \<mapsto> JNum (Fin 7)]])
        \<lparr>columns = Some [''sales'', ''profit''], group_by = None\<rparr>
        [''sales'' \<mapsto> ''float'', ''profit'' \<mapsto> ''float'']))
   = [(JStr ''sales'', ''sales'', [Fin 2, Fin 3]), (JStr ''profit'', ''profit'', [Fin 1, Fin 7])]"
  by (simp add: pipeline_eval sort_ascending_def)

lemma scenario_ambiguous_categorical:
  "fst (priv_processDataForBoxplot (\<lambda>s. NaN)
        (Some [[''region'' \<mapsto> JStr ''N'', ''dept'' \<mapsto> JStr ''x'', ''sales'' \<mapsto> JNum (Fin 1)]])
        \<lparr>columns = Some [''region'', ''dept'', ''sales''], group_by = None\<rparr>
        [''region'' \<mapsto> ''string'', ''dept'' \<mapsto> ''string'', ''sales'' \<mapsto> ''float''])
     = [WarnMultipleCategorical [''region'', ''dept'']]
   \<and> map groupKey (snd (priv_processDataForBoxplot (\<lambda>s. NaN)
        (Some [[''region'' \<mapsto> JStr ''N'', ''dept'' \<mapsto> JStr ''x'', ''sales'' \<mapsto> JNum (Fin 1)]])
        \<lparr>columns = Some [''region'', ''dept'', ''sales''], group_by = None\<rparr>
        [''region'' \<mapsto> ''string'', ''dept'' \<mapsto> ''string'', ''sales'' \<mapsto> ''float'']))
     = [JStr ''N'']"
  by (simp add: pipeline_eval sort_ascending_def)

lemma scenario_empty_metrics:
  "priv_processDataForBoxplot (\<lambda>s. NaN)
     (Some [[''region'' \<mapsto> JStr ''N'']])
     \<lparr>columns = Some [''region''], group_by = None\<rparr>
     [''region'' \<mapsto> ''string'']
   = ([WarnNoNumeric], [])"
  by (simp add: pipeline_eval)

lemma scenario_single_value:
  "priv_calculateBoxplotStats [Fin 100]
     = Some \<lparr>min_stat = Fin 100, max_stat = Fin 100, q1 = Fin 100, median = Fin 100,
             q3 = Fin 100, mean = Fin 100, outliers = [], count = 1\<rparr>"
  by (rule priv_stats_single)

section \<open>The statistics functions under rounding\<close>

lemma fl_exact:
  "fl_add Fin = js_add" "fl_sub Fin = js_sub" "fl_mul Fin = js_mul" "fl_div Fin = js_div"
proof -
  have "fl_add Fin a b = js_add a b" "fl_sub Fin a b = js_sub a b"
    "fl_mul Fin a b = js_mul a b" "fl_div Fin a b = js_div a b" for a b
    by (cases a; cases b; simp add: js_sub_def)+
  then show "fl_add Fin = js_add" "fl_sub Fin = js_sub" "fl_mul Fin = js_mul"
    "fl_div Fin = js_div" by (intro ext, simp)+
qed

lemma d3_quantile_fl_exact: "d3_quantile_fl Fin = d3_quantile"
  by (intro ext) (unfold d3_quantile_fl_def d3_quantile_def fl_exact, rule refl)

lemma d3_mean_fl_exact: "d3_mean_fl Fin = d3_mean"
  by (intro ext) (unfold d3_mean_fl_def d3_mean_def fl_exact, rule refl)

lemma priv_calculateBoxplotStats_fl_exact:
  "priv_calculateBoxplotStats_fl Fin vs = priv_calculateBoxplotStats vs"
  unfolding priv_calculateBoxplotStats_fl_def priv_calculateBoxplotStats_def
    d3_quantile_fl_exact d3_mean_fl_exact fl_exact ..

lemma calculateBoxplotStats_fl_exact:
  "calculateBoxplotStats_fl Fin vs = calculateBoxplotStats vs"
  unfolding calculateBoxplotStats_fl_def calculateBoxplotStats_def
    d3_quantile_fl_exact d3_mean_fl_exact fl_exact ..

lemma fold_choice:
  "fold (\<lambda>k e. if P k then k else e) ks e0 = e0
   \<or> (fold (\<lambda>k e. if P k then k else e) ks e0 \<in> set ks \<and> P (fold (\<lambda>k e. if P k then k else e) ks e0))"
proof (induction ks arbitrary: e0)
  case Nil
  then show ?case by simp
next
  case (Cons k ks)
  show ?case using Cons.IH[of "if P k then k else e0"] by auto
qed

lemma round_half_even_int: "round_half_even (of_int j) = j"
  by (simp add: round_half_even_def)

lemma round_double_exact:
  assumes "x = of_int m / 2 ^ k" "\<bar>m\<bar> < 2 ^ 53" "k \<le> 1074"
  shows "round_double x = Fin x"
proof -
  define e where "e = double_exponent x"
  have ax: "\<bar>x\<bar> = of_int \<bar>m\<bar> / 2 ^ k" by (simp add: assms(1) abs_divide)
  have "of_int \<bar>m\<bar> < (2 ^ 53 :: real)" using assms(2) by (metis of_int_less_numeral_power_cancel_iff)
  then have xlt: "\<bar>x\<bar> < 2 ^ 53 / 2 ^ k" unfolding ax by (simp add: divide_strict_right_mono)
  have ek: "e \<le> - int k"
  proof -
    have "e = - 1074 \<or> (e \<in> set [- 1074..971] \<and> 2 powi (e + 52) \<le> \<bar>x\<bar>)"
      unfolding e_def double_exponent_def by (rule fold_choice)
    then show ?thesis
    proof
      assume "e = - 1074"
      then show ?thesis using assms(3) by simp
    next
      assume "e \<in> set [- 1074..971] \<and> 2 powi (e + 52) \<le> \<bar>x\<bar>"
      then have "(2::real) powi (e + 52) < 2 ^ 53 / 2 ^ k" using xlt by linarith
      also have "(2::real) ^ 53 / 2 ^ k = 2 powi (53 - int k)"
        by (simp add: power_int_diff)
      finally have lt: "(2::real) powi (e + 52) < 2 powi (53 - int k)" .
      have "e + 52 < 53 - int k"
      proof (rule ccontr)
        assume "\<not> e + 52 < 53 - int k"
        then have "53 - int k \<le> e + 52" by simp
        then have "(2::real) powi (53 - int k) \<le> 2 powi (e + 52)"
          by (intro power_int_increasing) simp_all
        then show False using lt by linarith
      qed
      then show ?thesis by simp
    qed
  qed
  define j where "j = m * 2 ^ nat (- int k - e)"
  have p: "(2::real) powi e * 2 ^ nat (- int k - e) = 1 / 2 ^ k"
  proof -
    have "(2::real) ^ nat (- int k - e) = 2 powi (- int k - e)" using ek by (simp add: power_int_def)
    moreover have "(2::real) powi e * 2 powi (- int k - e) = 2 powi (e + (- int k - e))"
      by (rule power_int_add[symmetric]) simp
    moreover have "(2::real) powi (e + (- int k - e)) = 1 / 2 ^ k"
      by (simp add: power_int_minus divide_inverse)
    ultimately show ?thesis by simp
  qed
  have xj: "x = of_int j * 2 powi e"
  proof -
    have "of_int j * (2::real) powi e = of_int m * (2 powi e * 2 ^ nat (- int k - e))"
      by (simp add: j_def)
    then show ?thesis unfolding p by (simp add: assms(1))
  qed
  have "x / 2 powi e = of_int j" using xj by simp
  then have r: "of_int (round_half_even (x / 2 powi e)) * 2 powi e = x"
    using xj by (simp add: round_half_even_int)
  have "(1::real) \<le> 2 ^ k" by simp
  then have "(2::real) ^ 53 / 2 ^ k \<le> 2 ^ 53 / 1" by (intro divide_left_mono) simp_all
  then have "\<bar>x\<bar> < 2 ^ 53" using xlt by simp
  moreover have "(2::real) ^ 53 \<le> 2 powi 1024" by (simp add: power_int_def)
  ultimately have "\<not> x \<ge> 2 powi 1024" "\<not> x \<le> - (2 powi 1024)" by linarith+
  then show ?thesis
    unfolding round_double_def Let_def e_def[symmetric] r by simp
qed




lemma d3_quantile_fl_returns: "vs \<noteq> [] \<Longrightarrow> \<exists>q. d3_quantile_fl rnd vs p = Some q"
  by (simp add: d3_quantile_fl_def Let_def)

lemma d3_mean_fl_returns:
  assumes "vs \<noteq> []" "NaN \<notin> set vs"
  shows "\<exists>m. d3_mean_fl rnd vs = Some m"
proof -
  have "filter (\<lambda>v. \<not> isNaN v) vs = vs" using assms(2) by (auto simp: isNaN_iff filter_id_conv)
  then show ?thesis using assms(1) by (simp add: d3_mean_fl_def Let_def)
qed











lemma round_double_values:
  "round_double 0 = Fin 0" "round_double 1 = Fin 1" "round_double (1/2) = Fin (1/2)"
  "round_double (3/2) = Fin (3/2)" "round_double 3 = Fin 3" "round_double 4 = Fin 4"
  "round_double 5 = Fin 5" "round_double (5/2) = Fin (5/2)" "round_double 8 = Fin 8"
  "round_double 10 = Fin 10" "round_double (11/2) = Fin (11/2)" "round_double 12 = Fin 12"
  "round_double (25/2) = Fin (25/2)" "round_double 15 = Fin 15"
  "round_double (15/2) = Fin (15/2)" "round_double (35/2) = Fin (35/2)"
  "round_double 30 = Fin 30"
proof -
  have h: "round_double (of_int m / 2) = Fin (of_int m / 2)" if "\<bar>m\<bar> < 100" for m
    using that by (intro round_double_exact[where m = m and k = 1]) simp_all
  show "round_double 0 = Fin 0" using h[of 0] by simp
  show "round_double 1 = Fin 1" using h[of 2] by simp
  show "round_double (1/2) = Fin (1/2)" using h[of 1] by simp
  show "round_double (3/2) = Fin (3/2)" using h[of 3] by simp
  show "round_double 3 = Fin 3" using h[of 6] by simp
  show "round_double 4 = Fin 4" using h[of 8] by simp
  show "round_double 5 = Fin 5" using h[of 10] by simp
  show "round_double (5/2) = Fin (5/2)" using h[of 5] by simp
  show "round_double 8 = Fin 8" using h[of 16] by simp
  show "round_double 10 = Fin 10" using h[of 20] by simp
  show "round_double (11/2) = Fin (11/2)" using h[of 11] by simp
  show "round_double 12 = Fin 12" using h[of 24] by simp
  show "round_double (25/2) = Fin (25/2)" using h[of 25] by simp
  show "round_double 15 = Fin 15" using h[of 30] by simp
  show "round_double (15/2) = Fin (15/2)" using h[of 15] by simp
  show "round_double (35/2) = Fin (35/2)" using h[of 35] by simp
  show "round_double 30 = Fin 30" using h[of 60] by simp
qed

lemmas stats_fl_eval = priv_calculateBoxplotStats_fl_def calculateBoxplotStats_fl_def
  sort_ascending_def d3_quantile_fl_def d3_mean_fl_def js_sub_def js_ge_def js_le_def js_gt_def
  or_else_def Let_def round_double_values




lemma overflow_breaks_quartile_order:
  assumes "0 < M" "rnd (2 * M) = PosInf" "rnd 0 = Fin 0" "rnd M = Fin M"
  shows "\<exists>st. priv_calculateBoxplotStats_fl rnd [Fin M, Fin M, Fin (- M)] = Some st
           \<and> q1 st = PosInf \<and> median st = Fin M \<and> \<not> js_le (q1 st) (median st)"
proof -
  have s: "sort_ascending [Fin M, Fin M, Fin (- M)] = [Fin (- M), Fin M, Fin M]"
    using assms(1) by (simp add: sort_ascending_def)
  have a: "d3_quantile_fl rnd [Fin (- M), Fin M, Fin M] (1/4) = Some PosInf"
    by (simp add: d3_quantile_fl_def Let_def assms(2))
  have b: "d3_quantile_fl rnd [Fin (- M), Fin M, Fin M] (1/2) = Some (Fin M)"
    by (simp add: d3_quantile_fl_def Let_def assms(3,4))
  obtain c where c: "d3_quantile_fl rnd [Fin (- M), Fin M, Fin M] (3/4) = Some c"
    using d3_quantile_fl_returns[of "[Fin (- M), Fin M, Fin M]"] by blast
  obtain m where m: "d3_mean_fl rnd [Fin (- M), Fin M, Fin M] = Some m"
    using d3_mean_fl_returns[of "[Fin (- M), Fin M, Fin M]"] by auto
  show ?thesis
    unfolding priv_calculateBoxplotStats_fl_def Let_def s a b c m
    by (simp add: js_le_def)
qed

section \<open>The choice of the grouping column\<close>

lemma draw_grouping_precedence:
  assumes "rows \<noteq> []" "numericColumnsOf sch config \<noteq> []"
  shows "group_by config = Some (g # gs) \<Longrightarrow>
      draw s2n (Some rows) config sch
        = Rendered (Some g) [] (renderBoxplot s2n rows (Some g) (numericColumnsOf sch config))"
    and "group_by config = None \<or> group_by config = Some [] \<Longrightarrow>
      categoricalColumnsOf sch config = [c] \<Longrightarrow>
      draw s2n (Some rows) config sch
        = Rendered (Some c) [] (renderBoxplot s2n rows (Some c) (numericColumnsOf sch config))"
    and "group_by config = None \<or> group_by config = Some [] \<Longrightarrow>
      categoricalColumnsOf sch config = c # c' # cs \<Longrightarrow>
      draw s2n (Some rows) config sch
        = Rendered (Some c) [WarnMultipleCategorical (c # c' # cs)]
            (renderBoxplot s2n rows (Some c) (numericColumnsOf sch config))"
    and "group_by config = None \<or> group_by config = Some [] \<Longrightarrow>
      categoricalColumnsOf sch config = [] \<Longrightarrow>
      draw s2n (Some rows) config sch
        = Rendered None [] (renderBoxplot s2n rows None (numericColumnsOf sch config))"
proof -
  define cats where "cats = categoricalColumnsOf sch config"
  have d: "draw s2n (Some rows) config sch
      = Rendered (fst (resolveGroupBy config cats)) (snd (resolveGroupBy config cats))
          (renderBoxplot s2n rows (fst (resolveGroupBy config cats)) (numericColumnsOf sch config))"
    using assms
    by (simp add: draw_def Let_def cats_def categoricalColumnsOf_def numericColumnsOf_def)
  show "group_by config = Some (g # gs) \<Longrightarrow>
      draw s2n (Some rows) config sch
        = Rendered (Some g) [] (renderBoxplot s2n rows (Some g) (numericColumnsOf sch config))"
    unfolding d by (simp add: resolveGroupBy_explicit(1))
  show "group_by config = None \<or> group_by config = Some [] \<Longrightarrow>
      categoricalColumnsOf sch config = [c] \<Longrightarrow>
      draw s2n (Some rows) config sch
        = Rendered (Some c) [] (renderBoxplot s2n rows (Some c) (numericColumnsOf sch config))"
    unfolding d cats_def by (simp add: resolveGroupBy_explicit(2))
  show "group_by config = None \<or> group_by config = Some [] \<Longrightarrow>
      categoricalColumnsOf sch config = c # c' # cs \<Longrightarrow>
      draw s2n (Some rows) config sch
        = Rendered (Some c) [WarnMultipleCategorical (c # c' # cs)]
            (renderBoxplot s2n rows (Some c) (numericColumnsOf sch config))"
    unfolding d cats_def by (simp add: resolveGroupBy_explicit(3))
  show "group_by config = None \<or> group_by config = Some [] \<Longrightarrow>
      categoricalColumnsOf sch config = [] \<Longrightarrow>
      draw s2n (Some rows) config sch
        = Rendered None [] (renderBoxplot s2n rows None (numericColumnsOf sch config))"
    unfolding d cats_def by (simp add: resolveGroupBy_explicit(4))
qed

lemma priv_processRawData_grouping_precedence:
  assumes "fst (classifyColumns sch (configColumns config)) = nums" "nums \<noteq> []"
    and "filter (\<lambda>col. sch col = Some ''string'') (configColumns config) = cats"
  shows "group_by config = Some (g # gs) \<Longrightarrow>
      priv_processRawData s2n data config sch
        = ([], if g \<noteq> [] then groupedRecords s2n data g nums else ungroupedRecords s2n data nums)"
    and "group_by config = None \<or> group_by config = Some [] \<Longrightarrow> cats = [c] \<Longrightarrow>
      priv_processRawData s2n data config sch
        = ([], if c \<noteq> [] then groupedRecords s2n data c nums else ungroupedRecords s2n data nums)"
    and "group_by config = None \<or> group_by config = Some [] \<Longrightarrow> cats = c # c' # cs \<Longrightarrow>
      priv_processRawData s2n data config sch
        = ([WarnMultipleCategorical cats],
           if c \<noteq> [] then groupedRecords s2n data c nums else ungroupedRecords s2n data nums)"
    and "group_by config = None \<or> group_by config = Some [] \<Longrightarrow> cats = [] \<Longrightarrow>
      priv_processRawData s2n data config sch = ([], ungroupedRecords s2n data nums)"
proof -
  have c: "snd (classifyColumns sch (configColumns config)) = cats"
    using assms(3) by (simp add: classifyColumns_filter)
  have d: "priv_processRawData s2n data config sch
      = (snd (resolveGroupBy config cats),
         case fst (resolveGroupBy config cats) of
           None \<Rightarrow> ungroupedRecords s2n data nums
         | Some g \<Rightarrow> if g \<noteq> [] then groupedRecords s2n data g nums
                    else ungroupedRecords s2n data nums)"
    using assms(2) unfolding priv_processRawData_def Let_def assms(1) c by simp
  show "group_by config = Some (g # gs) \<Longrightarrow>
      priv_processRawData s2n data config sch
        = ([], if g \<noteq> [] then groupedRecords s2n data g nums else ungroupedRecords s2n data nums)"
    unfolding d by (simp add: resolveGroupBy_explicit(1))
  show "group_by config = None \<or> group_by config = Some [] \<Longrightarrow> cats = [c] \<Longrightarrow>
      priv_processRawData s2n data config sch
        = ([], if c \<noteq> [] then groupedRecords s2n data c nums else ungroupedRecords s2n data nums)"
    unfolding d by (simp add: resolveGroupBy_explicit(2))
  show "group_by config = None \<or> group_by config = Some [] \<Longrightarrow> cats = c # c' # cs \<Longrightarrow>
      priv_processRawData s2n data config sch
        = ([WarnMultipleCategorical cats],
           if c \<noteq> [] then groupedRecords s2n data c nums else ungroupedRecords s2n data nums)"
    unfolding d by (simp add: resolveGroupBy_explicit(3))
  show "group_by config = None \<or> group_by config = Some [] \<Longrightarrow> cats = [] \<Longrightarrow>
      priv_processRawData s2n data config sch = ([], ungroupedRecords s2n data nums)"
    unfolding d by (simp add: resolveGroupBy_explicit(4))
qed

lemma group_keys_from_group_by_column:
  assumes "group_by config = Some (x # gs)" "x \<noteq> []"
  shows "r \<in> set (snd (priv_processRawData s2n data config sch))
      \<Longrightarrow> \<exists>d\<in>set data. groupKey r = groupKeyOf x d"
    and "draw s2n (Some data) config sch = Rendered gbc con ds \<Longrightarrow> dt \<in> set ds
      \<Longrightarrow> gbc = Some x \<and> (\<exists>d\<in>set data. d_group dt = getField d x)"
proof -
  have rs: "\<And>cats. fst (resolveGroupBy config cats) = Some x"
    using assms(1) by (simp add: resolveGroupBy_explicit(1))
  show "\<exists>d\<in>set data. groupKey r = groupKeyOf x d"
    if "r \<in> set (snd (priv_processRawData s2n data config sch))"
  proof -
    have "r \<in> set (groupedRecords s2n data x (fst (classifyColumns sch (configColumns config))))"
      using that assms(2) by (auto simp: priv_processRawData_records Let_def rs split: if_splits)
    then obtain d im where d: "d \<in> set data"
      and cr: "r \<in> set (cellRecord s2n (groupKeyOf x d)
                      (filter (\<lambda>d'. groupKeyOf x d' = groupKeyOf x d) data) im)"
      unfolding in_groupedRecords by blast
    have "groupKey r = groupKeyOf x d" using cr by (rule cellRecord_fields(1))
    then show ?thesis using d by blast
  qed
  show "gbc = Some x \<and> (\<exists>d\<in>set data. d_group dt = getField d x)"
    if dr: "draw s2n (Some data) config sch = Rendered gbc con ds" and dt: "dt \<in> set ds"
  proof -
    have g: "gbc = Some x" using draw_Rendered(1)[OF dr] rs by simp
    have "dt \<in> set (renderBoxplot s2n data (Some x)
        (filter (\<lambda>col. sch col = Some ''integer'' \<or> sch col = Some ''float'') (configColumns config)))"
      using dt draw_Rendered(3)[OF dr] g by simp
    then obtain d m where d: "d \<in> set data"
      and cd: "dt \<in> set (cellDatum s2n (getField d x) (filter (\<lambda>d'. getField d' x = getField d x) data) m)"
      using assms(2) by (auto simp: renderBoxplot_grouped set_firstOccurrences)
    have "d_group dt = getField d x" using cd by (rule cellDatum_fields(1))
    then show ?thesis using g d by blast
  qed
qed

section \<open>Where rounding breaks the order of the whiskers\<close>

lemma fold_choice_none:
  "\<forall>j\<in>set ks. \<not> P j \<Longrightarrow> fold (\<lambda>k e. if P k then k else e) ks e0 = e0"
  by (induction ks arbitrary: e0) simp_all

lemma double_exponent_eq:
  assumes "- 1074 \<le> k" "k \<le> 971" "2 powi (k + 52) \<le> \<bar>x\<bar>" "\<bar>x\<bar> < 2 powi (k + 53)"
  shows "double_exponent x = k"
proof -
  define P where "P = (\<lambda>j. (2::real) powi (j + 52) \<le> \<bar>x\<bar>)"
  have split: "[- 1074..971] = ([- 1074..k - 1] @ [k]) @ [k + 1..971]"
    using assms(1,2) by (metis upto_rec2 upto_split2)
  have none: "\<forall>j\<in>set [k + 1..971]. \<not> P j"
  proof
    fix j assume "j \<in> set [k + 1..971]"
    then have "k + 53 \<le> j + 52" by simp
    then have "(2::real) powi (k + 53) \<le> 2 powi (j + 52)" by (intro power_int_increasing) simp_all
    then show "\<not> P j" using assms(4) by (simp add: P_def)
  qed
  have "P k" using assms(3) by (simp add: P_def)
  then have "fold (\<lambda>k e. if P k then k else e) (([- 1074..k - 1] @ [k]) @ [k + 1..971]) (- 1074) = k"
    unfolding fold_append comp_def by (simp add: fold_choice_none[OF none])
  then have "fold (\<lambda>k e. if P k then k else e) [- 1074..971] (- 1074) = k"
    unfolding split[symmetric] .
  then show ?thesis unfolding double_exponent_def P_def .
qed

lemma round_double_of_rounded:
  assumes "double_exponent x = e" "round_half_even (x / 2 powi e) = m"
    "\<bar>of_int m * 2 powi e\<bar> \<le> (2::real)"
  shows "round_double x = Fin (of_int m * 2 powi e)"
proof -
  define B where "B = (2::real) powi 1024"
  have "(2::real) powi 1 < 2 powi 1024" by (rule power_int_strict_increasing) simp_all
  then have "2 < B" unfolding B_def by (simp only: power_int_1_right)
  then have "\<not> of_int m * 2 powi e \<ge> B" "\<not> of_int m * 2 powi e \<le> - B"
    using assms(3) by linarith+
  then show ?thesis unfolding round_double_def Let_def assms(1,2) B_def[symmetric] by simp
qed

lemma round_double_ties:
  "round_double ((2 ^ 53 + 3) / 2 ^ 53) = Fin ((2 ^ 52 + 2) / 2 ^ 52)"
  "round_double ((2 ^ 53 + 5) / 2 ^ 53) = Fin ((2 ^ 52 + 2) / 2 ^ 52)"
proof -
  have p: "(2::real) powi (- 52) = 1 / 2 ^ 52"
  proof -
    have "(2::real) powi (- 52) = inverse (2 powi 52)" by (rule power_int_minus)
    moreover have "(2::real) powi 52 = 2 ^ 52" by (simp add: power_int_def)
    ultimately show ?thesis by (simp only: inverse_eq_divide)
  qed
  have a: "double_exponent ((2 ^ 53 + 3) / 2 ^ 53) = - 52"
    by (rule double_exponent_eq) simp_all
  have b: "double_exponent ((2 ^ 53 + 5) / 2 ^ 53) = - 52"
    by (rule double_exponent_eq) simp_all
  have qa: "((2 ^ 53 + 3) / 2 ^ 53 :: real) / 2 powi (- 52) = 2 ^ 52 + 3/2"
    unfolding p by simp
  have qb: "((2 ^ 53 + 5) / 2 ^ 53 :: real) / 2 powi (- 52) = 2 ^ 52 + 5/2"
    unfolding p by simp
  have fa: "\<lfloor>2 ^ 52 + 3/2 :: real\<rfloor> = 2 ^ 52 + 1" by (simp add: floor_eq_iff)
  have fb: "\<lfloor>2 ^ 52 + 5/2 :: real\<rfloor> = 2 ^ 52 + 2" by (simp add: floor_eq_iff)
  have ra: "round_half_even (((2 ^ 53 + 3) / 2 ^ 53 :: real) / 2 powi (- 52)) = 2 ^ 52 + 2"
    unfolding qa round_half_even_def Let_def fa by simp
  have rb: "round_half_even (((2 ^ 53 + 5) / 2 ^ 53 :: real) / 2 powi (- 52)) = 2 ^ 52 + 2"
    unfolding qb round_half_even_def Let_def fb by simp
  have v: "of_int (2 ^ 52 + 2) * (2::real) powi (- 52) = (2 ^ 52 + 2) / 2 ^ 52"
    unfolding p by simp
  have le: "\<bar>of_int (2 ^ 52 + 2) * (2::real) powi (- 52)\<bar> \<le> 2" unfolding v by simp
  show "round_double ((2 ^ 53 + 3) / 2 ^ 53) = Fin ((2 ^ 52 + 2) / 2 ^ 52)"
    using round_double_of_rounded[OF a ra le] unfolding v .
  show "round_double ((2 ^ 53 + 5) / 2 ^ 53) = Fin ((2 ^ 52 + 2) / 2 ^ 52)"
    using round_double_of_rounded[OF b rb le] unfolding v .
qed

lemma rounding_breaks_whisker_order_gen:
  assumes "a < m" "m < b" "m \<noteq> 0" "b \<noteq> 0" "a \<noteq> 0"
    and "rnd (b - a) = Fin d"
    and "rnd (d * (1/4)) = Fin d1" "rnd (a + d1) = Fin m"
    and "rnd (d * (1/2)) = Fin d2" "rnd (a + d2) = Fin m"
    and "rnd (d * (3/4)) = Fin d3" "rnd (a + d3) = Fin m"
    and "rnd 0 = Fin 0" "rnd m = Fin m"
  shows "\<exists>st. priv_calculateBoxplotStats_fl rnd [Fin a, Fin b] = Some st
           \<and> q1 st = Fin m \<and> median st = Fin m \<and> q3 st = Fin m
           \<and> min_stat st = Fin b \<and> max_stat st = Fin a
           \<and> \<not> js_le (min_stat st) (median st) \<and> \<not> js_le (median st) (max_stat st)"
proof -
  have s: "sort_ascending [Fin a, Fin b] = [Fin a, Fin b]"
    using assms(1,2) by (simp add: sort_ascending_def)
  have q: "d3_quantile_fl rnd [Fin a, Fin b] (1/4) = Some (Fin m)"
    "d3_quantile_fl rnd [Fin a, Fin b] (1/2) = Some (Fin m)"
    "d3_quantile_fl rnd [Fin a, Fin b] (3/4) = Some (Fin m)"
    using assms(6-12) by (simp_all add: d3_quantile_fl_def Let_def)
  obtain mn where mn: "d3_mean_fl rnd [Fin a, Fin b] = Some mn"
    using d3_mean_fl_returns[of "[Fin a, Fin b]"] by auto
  show ?thesis
    unfolding priv_calculateBoxplotStats_fl_def Let_def s q mn
    using assms(1-5,13,14) by (simp add: js_le_def js_ge_def or_else_def)
qed

lemma rounding_breaks_whisker_order:
  "\<exists>st. priv_calculateBoxplotStats_fl round_double
           [Fin ((2 ^ 52 + 1) / 2 ^ 52), Fin ((2 ^ 52 + 3) / 2 ^ 52)] = Some st
     \<and> q1 st = Fin ((2 ^ 52 + 2) / 2 ^ 52)
     \<and> median st = Fin ((2 ^ 52 + 2) / 2 ^ 52)
     \<and> q3 st = Fin ((2 ^ 52 + 2) / 2 ^ 52)
     \<and> min_stat st = Fin ((2 ^ 52 + 3) / 2 ^ 52)
     \<and> max_stat st = Fin ((2 ^ 52 + 1) / 2 ^ 52)
     \<and> \<not> js_le (min_stat st) (median st) \<and> \<not> js_le (median st) (max_stat st)"
proof -
  define a :: real where "a = (2 ^ 52 + 1) / 2 ^ 52"
  define b :: real where "b = (2 ^ 52 + 3) / 2 ^ 52"
  define m :: real where "m = (2 ^ 52 + 2) / 2 ^ 52"
  have o: "a < m" "m < b" "m \<noteq> 0" "b \<noteq> 0" "a \<noteq> 0" by (simp_all add: a_def b_def m_def)
  have d: "b - a = 1 / 2 ^ 51" by (simp add: a_def b_def)
  have e: "round_double (1 / 2 ^ 51) = Fin (1 / 2 ^ 51)"
    "round_double (1 / 2 ^ 53) = Fin (1 / 2 ^ 53)"
    "round_double (1 / 2 ^ 52) = Fin (1 / 2 ^ 52)"
    "round_double (3 / 2 ^ 53) = Fin (3 / 2 ^ 53)"
    by (rule round_double_exact[where m = 1 and k = 51], simp, simp, simp)
       (rule round_double_exact[where m = 1 and k = 53], simp, simp, simp,
        rule round_double_exact[where m = 1 and k = 52], simp, simp, simp,
        rule round_double_exact[where m = 3 and k = 53], simp, simp, simp)
  have em: "round_double m = Fin m"
    unfolding m_def by (rule round_double_exact[where m = "2 ^ 52 + 2" and k = 52]) simp_all
  have s: "1 / 2 ^ 51 * (1/4) = (1 / 2 ^ 53 :: real)" "1 / 2 ^ 51 * (1/2) = (1 / 2 ^ 52 :: real)"
    "1 / 2 ^ 51 * (3/4) = (3 / 2 ^ 53 :: real)" by simp_all
  have t: "a + 1 / 2 ^ 53 = (2 ^ 53 + 3) / 2 ^ 53" "a + 1 / 2 ^ 52 = m"
    "a + 3 / 2 ^ 53 = (2 ^ 53 + 5) / 2 ^ 53" by (simp_all add: a_def m_def)
  have "\<exists>st. priv_calculateBoxplotStats_fl round_double [Fin a, Fin b] = Some st
           \<and> q1 st = Fin m \<and> median st = Fin m \<and> q3 st = Fin m
           \<and> min_stat st = Fin b \<and> max_stat st = Fin a
           \<and> \<not> js_le (min_stat st) (median st) \<and> \<not> js_le (median st) (max_stat st)"
  proof (rule rounding_breaks_whisker_order_gen[OF o, where d = "1 / 2 ^ 51"
        and ?d1.0 = "1 / 2 ^ 53" and ?d2.0 = "1 / 2 ^ 52" and ?d3.0 = "3 / 2 ^ 53"])
    show "round_double (b - a) = Fin (1 / 2 ^ 51)" unfolding d by (rule e(1))
    show "round_double (1 / 2 ^ 51 * (1 / 4)) = Fin (1 / 2 ^ 53)" unfolding s by (rule e(2))
    show "round_double (1 / 2 ^ 51 * (1 / 2)) = Fin (1 / 2 ^ 52)" unfolding s by (rule e(3))
    show "round_double (1 / 2 ^ 51 * (3 / 4)) = Fin (3 / 2 ^ 53)" unfolding s by (rule e(4))
    show "round_double (a + 1 / 2 ^ 53) = Fin m" unfolding t m_def by (rule round_double_ties(1))
    show "round_double (a + 1 / 2 ^ 52) = Fin m" unfolding t by (rule em)
    show "round_double (a + 3 / 2 ^ 53) = Fin m" unfolding t m_def by (rule round_double_ties(2))
    show "round_double 0 = Fin 0" by (rule round_double_values(1))
    show "round_double m = Fin m" by (rule em)
  qed
  then show ?thesis unfolding a_def b_def m_def .
qed

lemma round_double_four_thirds:
  "round_double (4/3) = Fin (6004799503160661 / 2 ^ 52)"
proof -
  have p: "(2::real) powi (- 52) = 1 / 2 ^ 52"
  proof -
    have "(2::real) powi (- 52) = inverse (2 powi 52)" by (rule power_int_minus)
    moreover have "(2::real) powi 52 = 2 ^ 52" by (simp add: power_int_def)
    ultimately show ?thesis by (simp only: inverse_eq_divide)
  qed
  have a: "double_exponent (4/3) = - 52"
    by (rule double_exponent_eq) simp_all
  have q: "(4/3 :: real) / 2 powi (- 52) = 6004799503160661 + 1/3"
    unfolding p by simp
  have f: "\<lfloor>6004799503160661 + 1/3 :: real\<rfloor> = 6004799503160661" by (simp add: floor_eq_iff)
  have r: "round_half_even ((4/3 :: real) / 2 powi (- 52)) = 6004799503160661"
    unfolding q round_half_even_def Let_def f by simp
  have v: "of_int 6004799503160661 * (2::real) powi (- 52) = 6004799503160661 / 2 ^ 52"
    unfolding p by simp
  have le: "\<bar>of_int 6004799503160661 * (2::real) powi (- 52)\<bar> \<le> 2" unfolding v by simp
  show ?thesis using round_double_of_rounded[OF a r le] unfolding v .
qed

lemma rounding_changes_mean:
  "d3_mean_fl round_double [Fin 1, Fin 1, Fin 2] = Some (Fin (6004799503160661 / 2 ^ 52))"
  "Fin (6004799503160661 / 2 ^ 52) \<noteq> Fin (sum_list [1, 1, 2] / real (length [1, 1, 2 :: real]))"
proof -
  have two: "round_double 2 = Fin 2"
    by (rule round_double_exact[where m = 2 and k = 0]) simp_all
  show "d3_mean_fl round_double [Fin 1, Fin 1, Fin 2] = Some (Fin (6004799503160661 / 2 ^ 52))"
    by (simp add: d3_mean_fl_def Let_def round_double_values two round_double_four_thirds)
  show "Fin (6004799503160661 / 2 ^ 52) \<noteq> Fin (sum_list [1, 1, 2] / real (length [1, 1, 2 :: real]))"
    by simp
qed

section \<open>The counterexamples of the exact functions, in double arithmetic\<close>

lemma min_above_q1_in_doubles:
  "priv_calculateBoxplotStats_fl round_double [Fin 0, Fin 4, Fin 4, Fin 4]
     = priv_calculateBoxplotStats [Fin 0, Fin 4, Fin 4, Fin 4]"
  "calculateBoxplotStats_fl round_double [Fin 0, Fin 4, Fin 4, Fin 4]
     = calculateBoxplotStats [Fin 0, Fin 4, Fin 4, Fin 4]"
  by (simp_all add: stats_fl_eval stats_eval)

lemma zero_whisker_falls_back_under_rounding:
  assumes "rnd 0 = Fin 0"
  shows "\<exists>st. priv_calculateBoxplotStats_fl rnd [Fin (- 1), Fin 0, Fin 0, Fin 0, Fin 0] = Some st
           \<and> q1 st = Fin 0 \<and> median st = Fin 0 \<and> q3 st = Fin 0
           \<and> min_stat st = Fin (- 1) \<and> outliers st = [Fin (- 1)]"
proof -
  have s: "sort_ascending [Fin (- 1), Fin 0, Fin 0, Fin 0, Fin 0]
      = [Fin (- 1), Fin 0, Fin 0, Fin 0, Fin 0]"
    by (simp add: sort_ascending_def)
  have q: "d3_quantile_fl rnd [Fin (- 1), Fin 0, Fin 0, Fin 0, Fin 0] (1/4) = Some (Fin 0)"
    "d3_quantile_fl rnd [Fin (- 1), Fin 0, Fin 0, Fin 0, Fin 0] (1/2) = Some (Fin 0)"
    "d3_quantile_fl rnd [Fin (- 1), Fin 0, Fin 0, Fin 0, Fin 0] (3/4) = Some (Fin 0)"
    using assms by (simp_all add: d3_quantile_fl_def Let_def)
  obtain mn where mn: "d3_mean_fl rnd [Fin (- 1), Fin 0, Fin 0, Fin 0, Fin 0] = Some mn"
    using d3_mean_fl_returns[of "[Fin (- 1), Fin 0, Fin 0, Fin 0, Fin 0]"] by auto
  show ?thesis
    unfolding priv_calculateBoxplotStats_fl_def Let_def s q mn
    using assms by (simp add: js_le_def js_ge_def js_gt_def or_else_def)
qed

lemma round_double_top:
  "round_double (2 ^ 1023) = Fin (2 ^ 1023)" "round_double (2 * 2 ^ 1023) = PosInf"
proof -
  have p: "(2::real) powi 971 = 2 ^ 971" "(2::real) powi 1024 = 2 ^ 1024"
    by (simp_all add: power_int_def)
  have a: "double_exponent (2 ^ 1023) = 971"
    by (rule double_exponent_eq) (simp_all add: power_int_def)
  have n: "\<forall>j\<in>set ([]::int list). \<not> (2::real) powi (j + 52) \<le> \<bar>2 * 2 ^ 1023\<bar>" by simp
  have b: "double_exponent (2 * 2 ^ 1023) = 971"
  proof -
    define P where "P = (\<lambda>j. (2::real) powi (j + 52) \<le> \<bar>2 * 2 ^ 1023\<bar>)"
    have split: "[- 1074..971] = [- 1074..971 - 1] @ [971]" by (rule upto_rec2) simp
    have "P 971" by (simp add: P_def power_int_def)
    then have "fold (\<lambda>k e. if P k then k else e) ([- 1074..971 - 1] @ [971]) (- 1074) = 971"
      unfolding fold_append comp_def by simp
    then have "fold (\<lambda>k e. if P k then k else e) [- 1074..971] (- 1074) = 971"
      unfolding split[symmetric] .
    then show ?thesis unfolding double_exponent_def P_def .
  qed
  have qa: "(2 ^ 1023 :: real) / 2 powi 971 = of_int (2 ^ 52)" unfolding p by simp
  have qb: "(2 * 2 ^ 1023 :: real) / 2 powi 971 = of_int (2 ^ 53)" unfolding p by simp
  have ya: "of_int (2 ^ 52) * (2::real) powi 971 = 2 ^ 1023" unfolding p by simp
  have yb: "of_int (2 ^ 53) * (2::real) powi 971 = 2 ^ 1024" unfolding p by simp
  show "round_double (2 ^ 1023) = Fin (2 ^ 1023)"
    unfolding round_double_def Let_def a qa round_half_even_int ya unfolding p by simp
  show "round_double (2 * 2 ^ 1023) = PosInf"
    unfolding round_double_def Let_def b qb round_half_even_int yb unfolding p by simp
qed

lemma overflow_breaks_quartile_order_in_doubles:
  "\<exists>st. priv_calculateBoxplotStats_fl round_double
           [Fin (2 ^ 1023), Fin (2 ^ 1023), Fin (- (2 ^ 1023))] = Some st
     \<and> q1 st = PosInf \<and> median st = Fin (2 ^ 1023) \<and> \<not> js_le (q1 st) (median st)"
proof (rule overflow_breaks_quartile_order)
  show "(0::real) < 2 ^ 1023" by simp
  show "round_double (2 * 2 ^ 1023) = PosInf" by (rule round_double_top(2))
  show "round_double 0 = Fin 0" by (rule round_double_values(1))
  show "round_double (2 ^ 1023) = Fin (2 ^ 1023)" by (rule round_double_top(1))
qed

section \<open>The claims\<close>

text \<open>
  C1.  The chain of four strategies is the same in \<open>_processRawData\<close> and in \<open>draw\<close>
  (\<open>resolveGroupBy\<close>), and \<open>draw\<close> runs it on the categorical columns of the
  specification (lemma \<open>draw_grouping_precedence\<close>).  The plugin runs it on the columns
  of type string only (lemma \<open>priv_processRawData_grouping_precedence\<close>), so a date column
  is invisible to the second and third strategy.  With the schema \<open>{d: date, v: float}\<close>
  the only categorical column \<open>d\<close> is not used and the plugin does not group; with
  \<open>{d: date, s: string, v: float}\<close> and \<open>columns = [d, s, v]\<close> there are two
  categorical columns, and the plugin groups by the second one, \<open>s\<close>, without a
  warning.  \<open>draw\<close> groups by \<open>d\<close> on both, with the warning on the second.  The first
  strategy, an explicit \<open>group_by\<close>, is followed by both (lemma
  \<open>group_keys_from_group_by_column\<close>).
\<close>

theorem C1_date_column_skips_inference_tiers:
  "resolveGroupBy \<lparr>columns = Some [''d'', ''v''], group_by = None\<rparr>
       (snd (classifyColumns [''d'' \<mapsto> ''date'', ''v'' \<mapsto> ''float''] [''d'', ''v'']))
     = (None, [])
   \<and> map groupKey (snd (priv_processRawData (\<lambda>s. NaN)
        [[''d'' \<mapsto> JStr ''2024-01-01'', ''v'' \<mapsto> JNum (Fin 1)]]
        \<lparr>columns = Some [''d'', ''v''], group_by = None\<rparr>
        [''d'' \<mapsto> ''date'', ''v'' \<mapsto> ''float''])) = [JStr ''v'']
   \<and> (\<exists>ds. draw (\<lambda>s. NaN)
        (Some [[''d'' \<mapsto> JStr ''2024-01-01'', ''v'' \<mapsto> JNum (Fin 1)]])
        \<lparr>columns = Some [''d'', ''v''], group_by = None\<rparr>
        [''d'' \<mapsto> ''date'', ''v'' \<mapsto> ''float'']
       = Rendered (Some ''d'') [] ds \<and> map d_group ds = [JStr ''2024-01-01''])
   \<and> resolveGroupBy \<lparr>columns = Some [''d'', ''s'', ''v''], group_by = None\<rparr>
       (snd (classifyColumns [''d'' \<mapsto> ''date'', ''s'' \<mapsto> ''string'', ''v'' \<mapsto> ''float'']
          [''d'', ''s'', ''v'']))
     = (Some ''s'', [])
   \<and> fst (priv_processRawData (\<lambda>s. NaN)
        [[''d'' \<mapsto> JStr ''2024-01-01'', ''s'' \<mapsto> JStr ''a'', ''v'' \<mapsto> JNum (Fin 1)]]
        \<lparr>columns = Some [''d'', ''s'', ''v''], group_by = None\<rparr>
        [''d'' \<mapsto> ''date'', ''s'' \<mapsto> ''string'', ''v'' \<mapsto> ''float'']) = []
   \<and> map groupKey (snd (priv_processRawData (\<lambda>s. NaN)
        [[''d'' \<mapsto> JStr ''2024-01-01'', ''s'' \<mapsto> JStr ''a'', ''v'' \<mapsto> JNum (Fin 1)]]
        \<lparr>columns = Some [''d'', ''s'', ''v''], group_by = None\<rparr>
        [''d'' \<mapsto> ''date'', ''s'' \<mapsto> ''string'', ''v'' \<mapsto> ''float''])) = [JStr ''a'']
   \<and> (\<exists>ds. draw (\<lambda>s. NaN)
        (Some [[''d'' \<mapsto> JStr ''2024-01-01'', ''s'' \<mapsto> JStr ''a'', ''v'' \<mapsto> JNum (Fin 1)]])
        \<lparr>columns = Some [''d'', ''s'', ''v''], group_by = None\<rparr>
        [''d'' \<mapsto> ''date'', ''s'' \<mapsto> ''string'', ''v'' \<mapsto> ''float'']
       = Rendered (Some ''d'') [WarnMultipleCategorical [''d'', ''s'']] ds
       \<and> map d_group ds = [JStr ''2024-01-01''])"
  by (simp add: pipeline_eval sort_ascending_def)

text \<open>
  C2.  With the schema \<open>{d: date, v: float}\<close> and \<open>columns = [d, v]\<close>, the loop of
  \<open>_processRawData\<close> leaves \<open>categoricalColumns\<close> empty (it tests for \<open>'string'\<close>
  only), so the plugin plots the metric ungrouped under the key \<open>"v"\<close>; \<open>draw\<close> of the
  React integration counts the date column as categorical and groups by it.
\<close>

theorem C2_date_column_not_categorical:
  "snd (classifyColumns [''d'' \<mapsto> ''date'', ''v'' \<mapsto> ''float''] [''d'', ''v'']) = []
   \<and> priv_processRawData (\<lambda>s. NaN)
        [[''d'' \<mapsto> JStr ''2024-01-01'', ''v'' \<mapsto> JNum (Fin 1)]]
        \<lparr>columns = Some [''d'', ''v''], group_by = None\<rparr>
        [''d'' \<mapsto> ''date'', ''v'' \<mapsto> ''float'']
     = ([], [\<lparr>label = JStr ''v'', metric = ''v'', metricIndex = 0, groupKey = JStr ''v'',
               values = [Fin 1],
               stats = Some \<lparr>min_stat = Fin 1, max_stat = Fin 1, q1 = Fin 1, median = Fin 1,
                 q3 = Fin 1, mean = Fin 1, outliers = [], count = 1\<rparr>\<rparr>])
   \<and> draw (\<lambda>s. NaN)
        (Some [[''d'' \<mapsto> JStr ''2024-01-01'', ''v'' \<mapsto> JNum (Fin 1)]])
        \<lparr>columns = Some [''d'', ''v''], group_by = None\<rparr>
        [''d'' \<mapsto> ''date'', ''v'' \<mapsto> ''float'']
     = Rendered (Some ''d'') []
         [\<lparr>d_group = JStr ''2024-01-01'', d_metric = ''v'', d_values = [Fin 1],
            d_stats = Some \<lparr>min_stat = Fin 1, max_stat = Fin 1, q1 = Fin 1, median = Fin 1,
              q3 = Fin 1, mean = Fin 1, outliers = [], count = 1\<rparr>\<rparr>]"
  by (simp add: pipeline_eval stats_eval)

text \<open>
  C3, as the claim states it, fails: an infinite value of the metric column is retained.
  The filter is \<open>!isNaN(v)\<close>, not a finiteness test.
\<close>

theorem C3_infinity_is_retained:
  "map values (snd (priv_processRawData (\<lambda>s. NaN)
       [[''m'' \<mapsto> JNum (Fin 1)], [''m'' \<mapsto> JNum PosInf]]
       \<lparr>columns = Some [''m''], group_by = None\<rparr>
       [''m'' \<mapsto> ''float''])) = [[Fin 1, PosInf]]"
  by (simp add: pipeline_eval sort_ascending_def)

text \<open>
  C3, amended.  The values of a record are exactly the numeric coercions of the metric
  field over the rows of its partition that are not NaN, in ascending order: a missing
  key and a string that coerces to NaN are dropped, the infinities are kept, and nothing
  else is dropped.  Over all records of one metric column, the values are the non-NaN
  coercions of that column over all input rows.  This holds for \<open>_processRawData\<close>
  (the first three parts) and for \<open>renderBoxplot\<close> of the React integration (the next
  three).
\<close>

theorem C3_retained_values_are_the_non_NaN_coercions:
  "(r \<in> set (groupedRecords s2n data g nums) \<longrightarrow>
      values r = sort_ascending (filter (\<lambda>v. \<not> isNaN v)
        (map (\<lambda>d. toNumber s2n (getField d (metric r)))
          (filter (\<lambda>d. groupKeyOf g d = groupKey r) data))))
   \<and> (r \<in> set (ungroupedRecords s2n data nums) \<longrightarrow>
      values r = sort_ascending (filter (\<lambda>v. \<not> isNaN v)
        (map (\<lambda>d. toNumber s2n (getField d (metric r))) data)))
   \<and> (m \<in> set (fst (classifyColumns sch (configColumns config))) \<longrightarrow>
      (\<Union>r\<in>{r \<in> set (snd (priv_processRawData s2n data config sch)). metric r = m}.
          set (values r))
        = {v. \<not> isNaN v \<and> (\<exists>d\<in>set data. v = toNumber s2n (getField d m))})
   \<and> (g \<noteq> [] \<and> dt \<in> set (renderBoxplot s2n data (Some g) ms) \<longrightarrow>
      d_values dt = sort_ascending (filter (\<lambda>v. \<not> isNaN v)
        (map (\<lambda>d. toNumber s2n (getField d (d_metric dt)))
          (filter (\<lambda>d. getField d g = d_group dt) data))))
   \<and> ((gbc = None \<or> gbc = Some []) \<and> dt \<in> set (renderBoxplot s2n data gbc ms) \<longrightarrow>
      d_values dt = sort_ascending (filter (\<lambda>v. \<not> isNaN v)
        (map (\<lambda>d. toNumber s2n (getField d (d_metric dt))) data)))
   \<and> (m \<in> set ms \<longrightarrow>
      (\<Union>dt\<in>{dt \<in> set (renderBoxplot s2n data gbc ms). d_metric dt = m}. set (d_values dt))
        = {v. \<not> isNaN v \<and> (\<exists>d\<in>set data. v = toNumber s2n (getField d m))})
   \<and> (row m = None \<longrightarrow> isNaN (toNumber s2n (getField row m)))
   \<and> (row m = Some (JStr s) \<and> isNaN (s2n s) \<longrightarrow> isNaN (toNumber s2n (getField row m)))
   \<and> \<not> isNaN PosInf \<and> \<not> isNaN NegInf"
proof (intro conjI impI)
  assume "r \<in> set (groupedRecords s2n data g nums)"
  then show "values r = sort_ascending (filter (\<lambda>v. \<not> isNaN v)
        (map (\<lambda>d. toNumber s2n (getField d (metric r)))
          (filter (\<lambda>d. groupKeyOf g d = groupKey r) data)))"
    using groupedRecords_values by (simp add: metricValues_def)
next
  assume "r \<in> set (ungroupedRecords s2n data nums)"
  then show "values r = sort_ascending (filter (\<lambda>v. \<not> isNaN v)
        (map (\<lambda>d. toNumber s2n (getField d (metric r))) data))"
    using ungroupedRecords_values by (simp add: metricValues_def)
next
  assume "m \<in> set (fst (classifyColumns sch (configColumns config)))"
  then show "(\<Union>r\<in>{r \<in> set (snd (priv_processRawData s2n data config sch)). metric r = m}.
          set (values r))
        = {v. \<not> isNaN v \<and> (\<exists>d\<in>set data. v = toNumber s2n (getField d m))}"
    by (rule priv_processRawData_cover)
next
  assume "g \<noteq> [] \<and> dt \<in> set (renderBoxplot s2n data (Some g) ms)"
  then show "d_values dt = sort_ascending (filter (\<lambda>v. \<not> isNaN v)
        (map (\<lambda>d. toNumber s2n (getField d (d_metric dt)))
          (filter (\<lambda>d. getField d g = d_group dt) data)))"
    using renderBoxplot_grouped_values(1)[of g dt s2n data ms] by (simp add: metricValues_def)
next
  assume "(gbc = None \<or> gbc = Some []) \<and> dt \<in> set (renderBoxplot s2n data gbc ms)"
  then show "d_values dt = sort_ascending (filter (\<lambda>v. \<not> isNaN v)
        (map (\<lambda>d. toNumber s2n (getField d (d_metric dt))) data))"
    using renderBoxplot_ungrouped_values(1)[of gbc dt s2n data ms] by (simp add: metricValues_def)
next
  assume "m \<in> set ms"
  then show "(\<Union>dt\<in>{dt \<in> set (renderBoxplot s2n data gbc ms). d_metric dt = m}. set (d_values dt))
        = {v. \<not> isNaN v \<and> (\<exists>d\<in>set data. v = toNumber s2n (getField d m))}"
    by (rule renderBoxplot_cover)
next
  assume "row m = None"
  then show "isNaN (toNumber s2n (getField row m))" by (simp add: getField_def)
next
  assume "row m = Some (JStr s) \<and> isNaN (s2n s)"
  then show "isNaN (toNumber s2n (getField row m))" by (simp add: getField_def)
qed simp_all

theorem C3_retained_values_are_the_non_NaN_coercions_witness:
  "groupedRecords (\<lambda>s. NaN)
      [[''g'' \<mapsto> JStr ''a'', ''m'' \<mapsto> JNum PosInf], [''g'' \<mapsto> JStr ''a'', ''m'' \<mapsto> JNum (Fin 10)],
       [''g'' \<mapsto> JStr ''a'', ''m'' \<mapsto> JStr ''abc''], [''g'' \<mapsto> JStr ''a'']] ''g'' [''m'']
     = [\<lparr>label = JStr ''a'', metric = ''m'', metricIndex = 0, groupKey = JStr ''a'',
          values = [Fin 10, PosInf], stats = priv_calculateBoxplotStats [Fin 10, PosInf]\<rparr>]
   \<and> ungroupedRecords (\<lambda>s. NaN)
      [[''m'' \<mapsto> JNum (Fin 10)], [''m'' \<mapsto> JStr ''abc''], Map.empty] [''m'']
     = [\<lparr>label = JStr ''m'', metric = ''m'', metricIndex = 0, groupKey = JStr ''m'',
          values = [Fin 10], stats = priv_calculateBoxplotStats [Fin 10]\<rparr>]
   \<and> (\<Union>r\<in>{r \<in> set (snd (priv_processRawData (\<lambda>s. NaN)
                [[''m'' \<mapsto> JNum (Fin 10)], [''m'' \<mapsto> JStr ''abc''], Map.empty]
                \<lparr>columns = Some [''m''], group_by = None\<rparr> [''m'' \<mapsto> ''float''])).
              metric r = ''m''}. set (values r)) = {Fin 10}
   \<and> renderBoxplot (\<lambda>s. NaN)
      [[''g'' \<mapsto> JStr ''a'', ''m'' \<mapsto> JNum PosInf], [''g'' \<mapsto> JStr ''a'', ''m'' \<mapsto> JNum (Fin 10)],
       [''g'' \<mapsto> JStr ''a'', ''m'' \<mapsto> JStr ''abc''], [''g'' \<mapsto> JStr ''a'']] (Some ''g'') [''m'']
     = [\<lparr>d_group = JStr ''a'', d_metric = ''m'', d_values = [Fin 10, PosInf],
          d_stats = calculateBoxplotStats [Fin 10, PosInf]\<rparr>]
   \<and> renderBoxplot (\<lambda>s. NaN)
      [[''m'' \<mapsto> JNum (Fin 10)], [''m'' \<mapsto> JStr ''abc''], Map.empty] None [''m'']
     = [\<lparr>d_group = JStr ''m'', d_metric = ''m'', d_values = [Fin 10],
          d_stats = calculateBoxplotStats [Fin 10]\<rparr>]
   \<and> (\<Union>dt\<in>{dt \<in> set (renderBoxplot (\<lambda>s. NaN)
                [[''m'' \<mapsto> JNum (Fin 10)], [''m'' \<mapsto> JStr ''abc''], Map.empty] None [''m'']).
              d_metric dt = ''m''}. set (d_values dt)) = {Fin 10}
   \<and> isNaN (toNumber (\<lambda>s. NaN) (getField Map.empty ''m''))
   \<and> isNaN (toNumber (\<lambda>s. NaN) (getField [''m'' \<mapsto> JStr ''abc''] ''m''))"
proof -
  define rows1 :: "row list" where "rows1 =
      [[''g'' \<mapsto> JStr ''a'', ''m'' \<mapsto> JNum PosInf], [''g'' \<mapsto> JStr ''a'', ''m'' \<mapsto> JNum (Fin 10)],
       [''g'' \<mapsto> JStr ''a'', ''m'' \<mapsto> JStr ''abc''], [''g'' \<mapsto> JStr ''a'']]"
  define rows2 :: "row list" where "rows2 =
      [[''m'' \<mapsto> JNum (Fin 10)], [''m'' \<mapsto> JStr ''abc''], Map.empty]"
  define r1 where "r1 = \<lparr>label = JStr ''a'', metric = ''m'', metricIndex = 0, groupKey = JStr ''a'',
          values = [Fin 10, PosInf], stats = priv_calculateBoxplotStats [Fin 10, PosInf]\<rparr>"
  define r2 where "r2 = \<lparr>label = JStr ''m'', metric = ''m'', metricIndex = 0, groupKey = JStr ''m'',
          values = [Fin 10], stats = priv_calculateBoxplotStats [Fin 10]\<rparr>"
  define d1 where "d1 = \<lparr>d_group = JStr ''a'', d_metric = ''m'', d_values = [Fin 10, PosInf],
          d_stats = calculateBoxplotStats [Fin 10, PosInf]\<rparr>"
  define d2 where "d2 = \<lparr>d_group = JStr ''m'', d_metric = ''m'', d_values = [Fin 10],
          d_stats = calculateBoxplotStats [Fin 10]\<rparr>"
  define cfg where "cfg = \<lparr>columns = Some [''m''], group_by = None\<rparr>"
  define sch :: schema where "sch = [''m'' \<mapsto> ''float'']"
  have e1: "groupedRecords (\<lambda>s. NaN) rows1 ''g'' [''m''] = [r1]"
    by (simp add: pipeline_eval sort_ascending_def rows1_def r1_def)
  have e2: "ungroupedRecords (\<lambda>s. NaN) rows2 [''m''] = [r2]"
    by (simp add: pipeline_eval sort_ascending_def rows2_def r2_def)
  have e3: "renderBoxplot (\<lambda>s. NaN) rows1 (Some ''g'') [''m''] = [d1]"
    by (simp add: pipeline_eval sort_ascending_def rows1_def d1_def)
  have e4: "renderBoxplot (\<lambda>s. NaN) rows2 None [''m''] = [d2]"
    by (simp add: pipeline_eval sort_ascending_def rows2_def d2_def)
  have h3: "''m'' \<in> set (fst (classifyColumns sch (configColumns cfg)))"
    by (simp add: classifyColumns_def classifyStep_def configColumns_def cfg_def sch_def)
  note t = C3_retained_values_are_the_non_NaN_coercions
  note t2 = t[where r = r2 and ?s2n = "\<lambda>s. NaN" and data = rows2 and nums = "[''m'']"
      and m = "''m''" and sch = sch and config = cfg and gbc = None and dt = d2 and ms = "[''m'']"]
  have "(\<Union>r\<in>{r \<in> set (snd (priv_processRawData (\<lambda>s. NaN) rows2 cfg sch)). metric r = ''m''}.
          set (values r))
        = {v. \<not> isNaN v \<and> (\<exists>d\<in>set rows2. v = toNumber (\<lambda>s. NaN) (getField d ''m''))}"
    using t2[THEN conjunct2, THEN conjunct2, THEN conjunct1] h3 by simp
  also have c: "\<dots> = {Fin 10}"
    by (auto simp: rows2_def getField_def)
  finally have 3: "(\<Union>r\<in>{r \<in> set (snd (priv_processRawData (\<lambda>s. NaN) rows2 cfg sch)). metric r = ''m''}.
          set (values r)) = {Fin 10}" .
  have "(\<Union>dt\<in>{dt \<in> set (renderBoxplot (\<lambda>s. NaN) rows2 None [''m'']). d_metric dt = ''m''}.
          set (d_values dt))
        = {v. \<not> isNaN v \<and> (\<exists>d\<in>set rows2. v = toNumber (\<lambda>s. NaN) (getField d ''m''))}"
    using t2[THEN conjunct2, THEN conjunct2, THEN conjunct2, THEN conjunct2, THEN conjunct2,
        THEN conjunct1] by simp
  then have 6: "(\<Union>dt\<in>{dt \<in> set (renderBoxplot (\<lambda>s. NaN) rows2 None [''m'']). d_metric dt = ''m''}.
          set (d_values dt)) = {Fin 10}"
    using c by simp
  have 7: "isNaN (toNumber (\<lambda>s. NaN) (getField Map.empty ''m''))"
    using t[where row = Map.empty and m = "''m''" and ?s2n = "\<lambda>s. NaN",
        THEN conjunct2, THEN conjunct2, THEN conjunct2, THEN conjunct2, THEN conjunct2,
        THEN conjunct2, THEN conjunct1] by simp
  have 8: "isNaN (toNumber (\<lambda>s. NaN) (getField [''m'' \<mapsto> JStr ''abc''] ''m''))"
    using t[where row = "[''m'' \<mapsto> JStr ''abc'']" and m = "''m''" and s = "''abc''" and ?s2n = "\<lambda>s. NaN",
        THEN conjunct2, THEN conjunct2, THEN conjunct2, THEN conjunct2, THEN conjunct2,
        THEN conjunct2, THEN conjunct2, THEN conjunct1] by simp
  show ?thesis
    using e1 e2 3 e3 e4 6 7 8
    unfolding rows1_def rows2_def r1_def r2_def d1_def d2_def cfg_def sch_def by simp
qed

text \<open>
  C4.  On the values \<open>[-1, 0, 0, 0, 0]\<close> both fences are \<open>0\<close>, the smallest value
  within the fences is \<open>0\<close> and the non-outlier set is not empty, yet
  \<open>_calculateBoxplotStats\<close> returns \<open>min = -1\<close>, the absolute minimum and an outlier:
  \<open>find(...) || sortedValues[0]\<close> takes the found \<open>0\<close> for a missing result.
  \<open>calculateBoxplotStats\<close> of the React integration returns \<open>min = 0\<close>.
\<close>

theorem C4_zero_whisker_falls_back:
  "priv_calculateBoxplotStats [Fin (- 1), Fin 0, Fin 0, Fin 0, Fin 0]
     = Some \<lparr>min_stat = Fin (- 1), max_stat = Fin 0, q1 = Fin 0, median = Fin 0, q3 = Fin 0,
             mean = Fin (- (1/5)), outliers = [Fin (- 1)], count = 5\<rparr>
   \<and> calculateBoxplotStats [Fin (- 1), Fin 0, Fin 0, Fin 0, Fin 0]
     = Some \<lparr>min_stat = Fin 0, max_stat = Fin 0, q1 = Fin 0, median = Fin 0, q3 = Fin 0,
             mean = Fin (- (1/5)), outliers = [Fin (- 1)], count = 5\<rparr>"
  by (simp add: stats_eval)

text \<open>
  C5, as the claim states it, fails: the group key is the value of the grouping column
  itself, not its string coercion.  A row whose grouping column holds the number \<open>5\<close>
  is keyed by the number \<open>5\<close>, and \<open>groupKey\<close> is that number.
\<close>

theorem C5_group_key_keeps_its_type:
  "map groupKey (snd (priv_processRawData (\<lambda>s. NaN)
       [[''g'' \<mapsto> JNum (Fin 5), ''m'' \<mapsto> JNum (Fin 1)]]
       \<lparr>columns = Some [''m''], group_by = Some [''g'']\<rparr>
       [''g'' \<mapsto> ''integer'', ''m'' \<mapsto> ''float''])) = [JNum (Fin 5)]"
  by (simp add: pipeline_eval sort_ascending_def)

text \<open>
  C5, amended.  In \<open>_processRawData\<close> the key of a row is the value of the grouping
  column, uncoerced, when that value is truthy, and the string \<open>"Unknown"\<close> when the
  column is missing, \<open>undefined\<close> or \<open>null\<close>.  \<open>d3.group\<close> partitions the rows by this
  key: one group per key, in the order of first occurrence, holding the rows with that
  key in input order; every record carries the key of its partition as \<open>groupKey\<close> and
  is computed from the rows of that partition.  \<open>renderBoxplot\<close> of the React integration
  keys every row by the value of the grouping column itself, without a substitute.
\<close>

theorem C5_group_key_is_the_raw_value_or_Unknown:
  "(row g = None \<or> row g = Some JUndefined \<or> row g = Some JNull
      \<longrightarrow> groupKeyOf g row = JStr ''Unknown'')
   \<and> (truthy (getField row g) \<longrightarrow> groupKeyOf g row = getField row g)
   \<and> d3_group data (groupKeyOf g)
       = map (\<lambda>k. (k, filter (\<lambda>d. groupKeyOf g d = k) data))
           (firstOccurrences (map (groupKeyOf g) data))
   \<and> (r \<in> set (groupedRecords s2n data g nums)
      \<longrightarrow> (\<exists>d\<in>set data. groupKey r = groupKeyOf g d)
        \<and> values r = metricValues s2n (filter (\<lambda>d. groupKeyOf g d = groupKey r) data) (metric r))
   \<and> (g \<noteq> [] \<and> dt \<in> set (renderBoxplot s2n data (Some g) ms)
      \<longrightarrow> (\<exists>d\<in>set data. d_group dt = getField d g)
        \<and> d_values dt = metricValues s2n (filter (\<lambda>d. getField d g = d_group dt) data) (d_metric dt))"
proof (intro conjI impI)
  assume "row g = None \<or> row g = Some JUndefined \<or> row g = Some JNull"
  then show "groupKeyOf g row = JStr ''Unknown''"
    by (auto simp: groupKeyOf_def getField_def)
next
  assume "truthy (getField row g)"
  then show "groupKeyOf g row = getField row g" by (simp add: groupKeyOf_def)
next
  show "d3_group data (groupKeyOf g)
       = map (\<lambda>k. (k, filter (\<lambda>d. groupKeyOf g d = k) data))
           (firstOccurrences (map (groupKeyOf g) data))"
    by (rule d3_group_char)
next
  assume a: "r \<in> set (groupedRecords s2n data g nums)"
  then obtain d im where d: "d \<in> set data" and cr: "r \<in> set (cellRecord s2n (groupKeyOf g d)
      (filter (\<lambda>d'. groupKeyOf g d' = groupKeyOf g d) data) im)"
    unfolding in_groupedRecords by blast
  have "groupKey r = groupKeyOf g d" using cr by (rule cellRecord_fields(1))
  then show "\<exists>d\<in>set data. groupKey r = groupKeyOf g d" using d by blast
  show "values r = metricValues s2n (filter (\<lambda>d. groupKeyOf g d = groupKey r) data) (metric r)"
    using a by (rule groupedRecords_values)
next
  assume a: "g \<noteq> [] \<and> dt \<in> set (renderBoxplot s2n data (Some g) ms)"
  show "\<exists>d\<in>set data. d_group dt = getField d g"
    using a renderBoxplot_grouped_values(2)[of g dt s2n data ms] by simp
  show "d_values dt = metricValues s2n (filter (\<lambda>d. getField d g = d_group dt) data) (d_metric dt)"
    using a renderBoxplot_grouped_values(1)[of g dt s2n data ms] by simp
qed

theorem C5_group_key_is_the_raw_value_or_Unknown_witness:
  "groupKeyOf ''g'' [''m'' \<mapsto> JNum (Fin 1)] = JStr ''Unknown''
   \<and> groupKeyOf ''g'' [''g'' \<mapsto> JNull] = JStr ''Unknown''
   \<and> truthy (getField [''g'' \<mapsto> JStr ''N''] ''g'')
   \<and> groupKeyOf ''g'' [''g'' \<mapsto> JStr ''N''] = JStr ''N''
   \<and> map fst (d3_group [[''g'' \<mapsto> JStr ''N'', ''m'' \<mapsto> JNum (Fin 1)], [''m'' \<mapsto> JNum (Fin 2)],
                          [''g'' \<mapsto> JStr ''N'', ''m'' \<mapsto> JNum (Fin 3)], [''g'' \<mapsto> JNull, ''m'' \<mapsto> JNum (Fin 4)]]
                 (groupKeyOf ''g''))
       = [JStr ''N'', JStr ''Unknown'']
   \<and> map (\<lambda>r. (groupKey r, values r))
         (groupedRecords (\<lambda>s. NaN)
            [[''g'' \<mapsto> JStr ''N'', ''m'' \<mapsto> JNum (Fin 1)], [''m'' \<mapsto> JNum (Fin 2)],
             [''g'' \<mapsto> JStr ''N'', ''m'' \<mapsto> JNum (Fin 3)], [''g'' \<mapsto> JNull, ''m'' \<mapsto> JNum (Fin 4)]]
            ''g'' [''m''])
       = [(JStr ''N'', [Fin 1, Fin 3]), (JStr ''Unknown'', [Fin 2, Fin 4])]
   \<and> map (\<lambda>dt. (d_group dt, d_values dt))
         (renderBoxplot (\<lambda>s. NaN)
            [[''g'' \<mapsto> JStr ''N'', ''m'' \<mapsto> JNum (Fin 1)], [''m'' \<mapsto> JNum (Fin 2)],
             [''g'' \<mapsto> JStr ''N'', ''m'' \<mapsto> JNum (Fin 3)], [''g'' \<mapsto> JNull, ''m'' \<mapsto> JNum (Fin 4)]]
            (Some ''g'') [''m''])
       = [(JStr ''N'', [Fin 1, Fin 3]), (JUndefined, [Fin 2]), (JNull, [Fin 4])]"
proof -
  define rows :: "row list" where "rows =
      [[''g'' \<mapsto> JStr ''N'', ''m'' \<mapsto> JNum (Fin 1)], [''m'' \<mapsto> JNum (Fin 2)],
       [''g'' \<mapsto> JStr ''N'', ''m'' \<mapsto> JNum (Fin 3)], [''g'' \<mapsto> JNull, ''m'' \<mapsto> JNum (Fin 4)]]"
  define rN where "rN = \<lparr>label = JStr ''N'', metric = ''m'', metricIndex = 0, groupKey = JStr ''N'',
      values = [Fin 1, Fin 3], stats = priv_calculateBoxplotStats [Fin 1, Fin 3]\<rparr>"
  define rU where "rU = \<lparr>label = JStr ''Unknown'', metric = ''m'', metricIndex = 0,
      groupKey = JStr ''Unknown'', values = [Fin 2, Fin 4],
      stats = priv_calculateBoxplotStats [Fin 2, Fin 4]\<rparr>"
  note t = C5_group_key_is_the_raw_value_or_Unknown
  have 1: "groupKeyOf ''g'' [''m'' \<mapsto> JNum (Fin 1)] = JStr ''Unknown''"
    using t[where row = "[''m'' \<mapsto> JNum (Fin 1)]" and g = "''g''", THEN conjunct1] by simp
  have 2: "groupKeyOf ''g'' [''g'' \<mapsto> JNull] = JStr ''Unknown''"
    using t[where row = "[''g'' \<mapsto> JNull]" and g = "''g''", THEN conjunct1] by simp
  have h3: "truthy (getField [''g'' \<mapsto> JStr ''N''] ''g'')" by (simp add: getField_def)
  have 3: "groupKeyOf ''g'' [''g'' \<mapsto> JStr ''N''] = JStr ''N''"
    using t[where row = "[''g'' \<mapsto> JStr ''N'']" and g = "''g''", THEN conjunct2, THEN conjunct1] h3
    by (simp add: getField_def)
  have "d3_group rows (groupKeyOf ''g'')
       = map (\<lambda>k. (k, filter (\<lambda>d. groupKeyOf ''g'' d = k) rows))
           (firstOccurrences (map (groupKeyOf ''g'') rows))"
    using t[where data = rows and g = "''g''", THEN conjunct2, THEN conjunct2, THEN conjunct1] .
  then have 4: "map fst (d3_group rows (groupKeyOf ''g'')) = [JStr ''N'', JStr ''Unknown'']"
    by (simp add: rows_def firstOccurrences_def groupKeyOf_def getField_def comp_def)
  have e: "groupedRecords (\<lambda>s. NaN) rows ''g'' [''m''] = [rN, rU]"
    by (simp add: pipeline_eval sort_ascending_def rows_def rN_def rU_def)
  have "(\<exists>d\<in>set rows. groupKey rU = groupKeyOf ''g'' d)
        \<and> values rU = metricValues (\<lambda>s. NaN) (filter (\<lambda>d. groupKeyOf ''g'' d = groupKey rU) rows) (metric rU)"
    using t[where r = rU and ?s2n = "\<lambda>s. NaN" and data = rows and g = "''g''" and nums = "[''m'']",
        THEN conjunct2, THEN conjunct2, THEN conjunct2, THEN conjunct1] e by simp
  have 5: "map (\<lambda>r. (groupKey r, values r)) (groupedRecords (\<lambda>s. NaN) rows ''g'' [''m''])
       = [(JStr ''N'', [Fin 1, Fin 3]), (JStr ''Unknown'', [Fin 2, Fin 4])]"
    by (simp add: e rN_def rU_def)
  define dN where "dN = \<lparr>d_group = JStr ''N'', d_metric = ''m'', d_values = [Fin 1, Fin 3],
      d_stats = calculateBoxplotStats [Fin 1, Fin 3]\<rparr>"
  define dU where "dU = \<lparr>d_group = JUndefined, d_metric = ''m'', d_values = [Fin 2],
      d_stats = calculateBoxplotStats [Fin 2]\<rparr>"
  define dL where "dL = \<lparr>d_group = JNull, d_metric = ''m'', d_values = [Fin 4],
      d_stats = calculateBoxplotStats [Fin 4]\<rparr>"
  have e': "renderBoxplot (\<lambda>s. NaN) rows (Some ''g'') [''m''] = [dN, dU, dL]"
    by (simp add: pipeline_eval sort_ascending_def rows_def dN_def dU_def dL_def)
  have "(\<exists>d\<in>set rows. d_group dU = getField d ''g'')
        \<and> d_values dU = metricValues (\<lambda>s. NaN) (filter (\<lambda>d. getField d ''g'' = d_group dU) rows) (d_metric dU)"
    using t[where dt = dU and ?s2n = "\<lambda>s. NaN" and data = rows and g = "''g''" and ms = "[''m'']",
        THEN conjunct2, THEN conjunct2, THEN conjunct2, THEN conjunct2] e' by simp
  have 6: "map (\<lambda>dt. (d_group dt, d_values dt)) (renderBoxplot (\<lambda>s. NaN) rows (Some ''g'') [''m''])
       = [(JStr ''N'', [Fin 1, Fin 3]), (JUndefined, [Fin 2]), (JNull, [Fin 4])]"
    by (simp add: e' dN_def dU_def dL_def)
  show ?thesis using 1 2 h3 3 4 5 6 unfolding rows_def by simp
qed









text \<open>
  C9, as the claim states it, fails on \<open>columns = [a, a, b]\<close> with one row that holds
  \<open>a\<close> only: the output has two records with the pair (\<open>"a"\<close>, \<open>a\<close>), and none for the
  metric \<open>b\<close>, whose cell has no value.
\<close>

theorem C9_repeated_and_missing_metric:
  "map (\<lambda>r. (groupKey r, metric r)) (snd (priv_processRawData (\<lambda>s. NaN)
       [[''a'' \<mapsto> JNum (Fin 1)]]
       \<lparr>columns = Some [''a'', ''a'', ''b''], group_by = None\<rparr>
       [''a'' \<mapsto> ''float'', ''b'' \<mapsto> ''float'']))
     = [(JStr ''a'', ''a''), (JStr ''a'', ''a'')]"
  by (simp add: pipeline_eval sort_ascending_def)

text \<open>
  C9, amended.  With a grouping column, the (group key, metric) pairs of the output are,
  for each key in the order of its first occurrence in the rows, the metric columns in
  their order that have at least one value in that partition.  Without one, they are the
  metric columns in their order that have at least one value, each under its own name
  as key.  When the metric columns are pairwise distinct, no pair occurs twice in the
  output of \<open>_processRawData\<close>.  The same holds for \<open>renderBoxplot\<close> of the React
  integration, with the raw value of the grouping column as key (the last three parts).
\<close>

theorem C9_output_order:
  "map (\<lambda>r. (groupKey r, metric r)) (groupedRecords s2n data g nums)
     = concat (map (\<lambda>k. map (Pair k)
          (filter (\<lambda>m. metricValues s2n (filter (\<lambda>d. groupKeyOf g d = k) data) m \<noteq> []) nums))
        (firstOccurrences (map (groupKeyOf g) data)))
   \<and> map (\<lambda>r. (groupKey r, metric r)) (ungroupedRecords s2n data nums)
     = map (\<lambda>m. (JStr m, m)) (filter (\<lambda>m. metricValues s2n data m \<noteq> []) nums)
   \<and> (distinct (fst (classifyColumns sch (configColumns config)))
      \<longrightarrow> distinct (map (\<lambda>r. (groupKey r, metric r))
            (snd (priv_processRawData s2n data config sch))))
   \<and> (g \<noteq> [] \<longrightarrow>
      map (\<lambda>dt. (d_group dt, d_metric dt)) (renderBoxplot s2n data (Some g) ms)
        = concat (map (\<lambda>k. map (Pair k)
            (filter (\<lambda>m. metricValues s2n (filter (\<lambda>d. getField d g = k) data) m \<noteq> []) ms))
          (firstOccurrences (map (\<lambda>d. getField d g) data))))
   \<and> (gbc = None \<or> gbc = Some [] \<longrightarrow>
      map (\<lambda>dt. (d_group dt, d_metric dt)) (renderBoxplot s2n data gbc ms)
        = map (\<lambda>m. (JStr m, m)) (filter (\<lambda>m. metricValues s2n data m \<noteq> []) ms))
   \<and> (distinct ms
      \<longrightarrow> distinct (map (\<lambda>dt. (d_group dt, d_metric dt)) (renderBoxplot s2n data gbc ms)))"
proof (intro conjI impI)
  show "map (\<lambda>r. (groupKey r, metric r)) (groupedRecords s2n data g nums)
     = concat (map (\<lambda>k. map (Pair k)
          (filter (\<lambda>m. metricValues s2n (filter (\<lambda>d. groupKeyOf g d = k) data) m \<noteq> []) nums))
        (firstOccurrences (map (groupKeyOf g) data)))"
    by (rule groupedRecords_pairs)
  show "map (\<lambda>r. (groupKey r, metric r)) (ungroupedRecords s2n data nums)
     = map (\<lambda>m. (JStr m, m)) (filter (\<lambda>m. metricValues s2n data m \<noteq> []) nums)"
    by (rule ungroupedRecords_pairs)
next
  assume d: "distinct (fst (classifyColumns sch (configColumns config)))"
  from priv_processRawData_cases[of sch config s2n data]
  show "distinct (map (\<lambda>r. (groupKey r, metric r)) (snd (priv_processRawData s2n data config sch)))"
    using groupedRecords_distinct[OF d] ungroupedRecords_distinct[OF d] by auto
next
  assume "g \<noteq> []"
  then show "map (\<lambda>dt. (d_group dt, d_metric dt)) (renderBoxplot s2n data (Some g) ms)
        = concat (map (\<lambda>k. map (Pair k)
            (filter (\<lambda>m. metricValues s2n (filter (\<lambda>d. getField d g = k) data) m \<noteq> []) ms))
          (firstOccurrences (map (\<lambda>d. getField d g) data)))"
    by (rule renderBoxplot_grouped_pairs)
next
  assume "gbc = None \<or> gbc = Some []"
  then show "map (\<lambda>dt. (d_group dt, d_metric dt)) (renderBoxplot s2n data gbc ms)
        = map (\<lambda>m. (JStr m, m)) (filter (\<lambda>m. metricValues s2n data m \<noteq> []) ms)"
    by (rule renderBoxplot_ungrouped_pairs)
next
  assume "distinct ms"
  then show "distinct (map (\<lambda>dt. (d_group dt, d_metric dt)) (renderBoxplot s2n data gbc ms))"
    by (rule renderBoxplot_distinct)
qed

theorem C9_output_order_witness:
  "map (\<lambda>r. (groupKey r, metric r))
      (groupedRecords (\<lambda>s. NaN)
         [[''g'' \<mapsto> JStr ''S'', ''a'' \<mapsto> JNum (Fin 1), ''b'' \<mapsto> JNum (Fin 2)],
          [''g'' \<mapsto> JStr ''N'', ''a'' \<mapsto> JNum (Fin 3)],
          [''g'' \<mapsto> JStr ''S'', ''a'' \<mapsto> JNum (Fin 4), ''b'' \<mapsto> JNum (Fin 5)]]
         ''g'' [''a'', ''b''])
     = [(JStr ''S'', ''a''), (JStr ''S'', ''b''), (JStr ''N'', ''a'')]
   \<and> map (\<lambda>r. (groupKey r, metric r))
      (ungroupedRecords (\<lambda>s. NaN)
         [[''sales'' \<mapsto> JNum (Fin 1), ''profit'' \<mapsto> JNum (Fin 2)]] [''sales'', ''profit''])
     = [(JStr ''sales'', ''sales''), (JStr ''profit'', ''profit'')]
   \<and> distinct (fst (classifyColumns [''sales'' \<mapsto> ''float'', ''profit'' \<mapsto> ''float'']
        (configColumns \<lparr>columns = Some [''sales'', ''profit''], group_by = None\<rparr>)))
   \<and> distinct (map (\<lambda>r. (groupKey r, metric r))
        (snd (priv_processRawData (\<lambda>s. NaN)
           [[''sales'' \<mapsto> JNum (Fin 1), ''profit'' \<mapsto> JNum (Fin 2)]]
           \<lparr>columns = Some [''sales'', ''profit''], group_by = None\<rparr>
           [''sales'' \<mapsto> ''float'', ''profit'' \<mapsto> ''float''])))
   \<and> map (\<lambda>dt. (d_group dt, d_metric dt))
      (renderBoxplot (\<lambda>s. NaN)
         [[''g'' \<mapsto> JStr ''S'', ''a'' \<mapsto> JNum (Fin 1), ''b'' \<mapsto> JNum (Fin 2)],
          [''g'' \<mapsto> JStr ''N'', ''a'' \<mapsto> JNum (Fin 3)],
          [''g'' \<mapsto> JStr ''S'', ''a'' \<mapsto> JNum (Fin 4), ''b'' \<mapsto> JNum (Fin 5)]]
         (Some ''g'') [''a'', ''b''])
     = [(JStr ''S'', ''a''), (JStr ''S'', ''b''), (JStr ''N'', ''a'')]
   \<and> map (\<lambda>dt. (d_group dt, d_metric dt))
      (renderBoxplot (\<lambda>s. NaN)
         [[''sales'' \<mapsto> JNum (Fin 1), ''profit'' \<mapsto> JNum (Fin 2)]] None [''sales'', ''profit''])
     = [(JStr ''sales'', ''sales''), (JStr ''profit'', ''profit'')]
   \<and> distinct (map (\<lambda>dt. (d_group dt, d_metric dt))
      (renderBoxplot (\<lambda>s. NaN)
         [[''sales'' \<mapsto> JNum (Fin 1), ''profit'' \<mapsto> JNum (Fin 2)]] None [''sales'', ''profit'']))"
proof -
  note t = C9_output_order
  have 1: "map (\<lambda>r. (groupKey r, metric r))
      (groupedRecords (\<lambda>s. NaN)
         [[''g'' \<mapsto> JStr ''S'', ''a'' \<mapsto> JNum (Fin 1), ''b'' \<mapsto> JNum (Fin 2)],
          [''g'' \<mapsto> JStr ''N'', ''a'' \<mapsto> JNum (Fin 3)],
          [''g'' \<mapsto> JStr ''S'', ''a'' \<mapsto> JNum (Fin 4), ''b'' \<mapsto> JNum (Fin 5)]]
         ''g'' [''a'', ''b''])
     = [(JStr ''S'', ''a''), (JStr ''S'', ''b''), (JStr ''N'', ''a'')]"
    unfolding t[THEN conjunct1]
    by (simp add: firstOccurrences_def groupKeyOf_def getField_def metricValues_def sort_ascending_def)
  have 2: "map (\<lambda>r. (groupKey r, metric r))
      (ungroupedRecords (\<lambda>s. NaN)
         [[''sales'' \<mapsto> JNum (Fin 1), ''profit'' \<mapsto> JNum (Fin 2)]] [''sales'', ''profit''])
     = [(JStr ''sales'', ''sales''), (JStr ''profit'', ''profit'')]"
    unfolding t[THEN conjunct2, THEN conjunct1]
    by (simp add: getField_def metricValues_def sort_ascending_def)
  have h3: "distinct (fst (classifyColumns [''sales'' \<mapsto> ''float'', ''profit'' \<mapsto> ''float'']
        (configColumns \<lparr>columns = Some [''sales'', ''profit''], group_by = None\<rparr>)))"
    by (simp add: classifyColumns_def classifyStep_def configColumns_def)
  have 3: "distinct (map (\<lambda>r. (groupKey r, metric r))
        (snd (priv_processRawData (\<lambda>s. NaN)
           [[''sales'' \<mapsto> JNum (Fin 1), ''profit'' \<mapsto> JNum (Fin 2)]]
           \<lparr>columns = Some [''sales'', ''profit''], group_by = None\<rparr>
           [''sales'' \<mapsto> ''float'', ''profit'' \<mapsto> ''float''])))"
    using t[THEN conjunct2, THEN conjunct2, THEN conjunct1, rule_format, OF h3] .
  have 4: "map (\<lambda>dt. (d_group dt, d_metric dt))
      (renderBoxplot (\<lambda>s. NaN)
         [[''g'' \<mapsto> JStr ''S'', ''a'' \<mapsto> JNum (Fin 1), ''b'' \<mapsto> JNum (Fin 2)],
          [''g'' \<mapsto> JStr ''N'', ''a'' \<mapsto> JNum (Fin 3)],
          [''g'' \<mapsto> JStr ''S'', ''a'' \<mapsto> JNum (Fin 4), ''b'' \<mapsto> JNum (Fin 5)]]
         (Some ''g'') [''a'', ''b''])
     = [(JStr ''S'', ''a''), (JStr ''S'', ''b''), (JStr ''N'', ''a'')]"
    using t[where g = "''g''", THEN conjunct2, THEN conjunct2, THEN conjunct2, THEN conjunct1]
    by (simp add: firstOccurrences_def getField_def metricValues_def sort_ascending_def)
  have 5: "map (\<lambda>dt. (d_group dt, d_metric dt))
      (renderBoxplot (\<lambda>s. NaN)
         [[''sales'' \<mapsto> JNum (Fin 1), ''profit'' \<mapsto> JNum (Fin 2)]] None [''sales'', ''profit''])
     = [(JStr ''sales'', ''sales''), (JStr ''profit'', ''profit'')]"
    using t[where gbc = None, THEN conjunct2, THEN conjunct2, THEN conjunct2, THEN conjunct2,
        THEN conjunct1]
    by (simp add: getField_def metricValues_def sort_ascending_def)
  have 6: "distinct (map (\<lambda>dt. (d_group dt, d_metric dt))
      (renderBoxplot (\<lambda>s. NaN)
         [[''sales'' \<mapsto> JNum (Fin 1), ''profit'' \<mapsto> JNum (Fin 2)]] None [''sales'', ''profit'']))"
    using t[where ms = "[''sales'', ''profit'']", THEN conjunct2, THEN conjunct2, THEN conjunct2,
        THEN conjunct2, THEN conjunct2]
    by simp
  show ?thesis using 1 2 h3 3 4 5 6 by blast
qed

text \<open>
  C10.  In every statistics object the outliers are in ascending order and form a
  subsequence of the ascending-sorted values: of \<open>_calculateBoxplotStats\<close> and of
  \<open>calculateBoxplotStats\<close> on any array, and so in every record the plugin and the React
  integration push, where the sorted values are the record's \<open>values\<close>.
\<close>

theorem C10_outliers_sorted_subsequence:
  "(priv_calculateBoxplotStats vs = Some st \<or> calculateBoxplotStats vs = Some st
      \<longrightarrow> subseq (outliers st) (sort_ascending vs)
        \<and> sorted (map ascending_key (outliers st)))
   \<and> (r \<in> set (cellRecord s2n key rows im)
      \<longrightarrow> (\<exists>st'. stats r = Some st' \<and> subseq (outliers st') (values r)
            \<and> sorted_wrt js_le (values r) \<and> sorted_wrt js_le (outliers st')))
   \<and> (d \<in> set (cellDatum s2n key rows m)
      \<longrightarrow> (\<exists>st'. d_stats d = Some st' \<and> subseq (outliers st') (d_values d)
            \<and> sorted_wrt js_le (d_values d) \<and> sorted_wrt js_le (outliers st')))"
proof (intro conjI impI)
  assume a: "priv_calculateBoxplotStats vs = Some st \<or> calculateBoxplotStats vs = Some st"
  then have o: "outliers st = filter (\<lambda>v. js_lt v (lowerFence st) \<or> js_gt v (upperFence st))
      (sort_ascending vs)"
    using priv_stats_outliers(1) react_stats_outliers(1) by blast
  show "subseq (outliers st) (sort_ascending vs)" by (rule outliers_subseq_sorted(1)[OF o])
  show "sorted (map ascending_key (outliers st))" by (rule outliers_subseq_sorted(2)[OF o])
next
  assume a: "r \<in> set (cellRecord s2n key rows im)"
  obtain i mc where im: "im = (i, mc)" by (cases im)
  define V where "V = metricValues s2n rows mc"
  have r: "values r = V" "stats r = priv_calculateBoxplotStats V" and ne: "V \<noteq> []"
    using cellRecord_elem[OF a[unfolded im]] by (simp_all add: V_def)
  have nn: "NaN \<notin> set V" unfolding V_def by (rule metricValues_no_NaN)
  obtain st' where st: "priv_calculateBoxplotStats V = Some st'"
    using priv_calculateBoxplotStats_returns[OF ne nn] by blast
  have sid: "sort_ascending V = V" unfolding V_def by (rule metricValues_sort_id)
  have o: "outliers st' = filter (\<lambda>v. js_lt v (lowerFence st') \<or> js_gt v (upperFence st')) V"
    using priv_stats_outliers(1)[OF st] by (simp add: sid)
  have sv: "sorted_wrt js_le V"
    unfolding V_def by (rule sorted_wrt_js_le[OF metricValues_sorted metricValues_no_NaN])
  have "subseq (outliers st') V" by (simp add: o)
  moreover have "sorted_wrt js_le (outliers st')" using sv by (simp add: o sorted_wrt_filter)
  ultimately show "\<exists>st'. stats r = Some st' \<and> subseq (outliers st') (values r)
      \<and> sorted_wrt js_le (values r) \<and> sorted_wrt js_le (outliers st')"
    using r st sv by auto
next
  assume a: "d \<in> set (cellDatum s2n key rows m)"
  define V where "V = metricValues s2n rows m"
  have r: "d_values d = V" "d_stats d = calculateBoxplotStats V" and ne: "V \<noteq> []"
    using cellDatum_elem[OF a] by (simp_all add: V_def)
  have nn: "NaN \<notin> set V" unfolding V_def by (rule metricValues_no_NaN)
  obtain st' where st: "calculateBoxplotStats V = Some st'"
    using calculateBoxplotStats_returns[OF ne nn] by blast
  have sid: "sort_ascending V = V" unfolding V_def by (rule metricValues_sort_id)
  have o: "outliers st' = filter (\<lambda>v. js_lt v (lowerFence st') \<or> js_gt v (upperFence st')) V"
    using react_stats_outliers(1)[OF st] by (simp add: sid)
  have sv: "sorted_wrt js_le V"
    unfolding V_def by (rule sorted_wrt_js_le[OF metricValues_sorted metricValues_no_NaN])
  have "subseq (outliers st') V" by (simp add: o)
  moreover have "sorted_wrt js_le (outliers st')" using sv by (simp add: o sorted_wrt_filter)
  ultimately show "\<exists>st'. d_stats d = Some st' \<and> subseq (outliers st') (d_values d)
      \<and> sorted_wrt js_le (d_values d) \<and> sorted_wrt js_le (outliers st')"
    using r st sv by auto
qed

theorem C10_outliers_sorted_subsequence_witness:
  "priv_calculateBoxplotStats [Fin 4, Fin 0, Fin 4, Fin 4]
     = Some \<lparr>min_stat = Fin 4, max_stat = Fin 4, q1 = Fin 3, median = Fin 4, q3 = Fin 4,
             mean = Fin 3, outliers = [Fin 0], count = 4\<rparr>
   \<and> subseq [Fin 0] (sort_ascending [Fin 4, Fin 0, Fin 4, Fin 4])
   \<and> sorted (map ascending_key [Fin 0])
   \<and> cellRecord (\<lambda>s. NaN) (JStr ''N'')
        [[''m'' \<mapsto> JNum (Fin 4)], [''m'' \<mapsto> JNum (Fin 0)], [''m'' \<mapsto> JNum (Fin 4)],
         [''m'' \<mapsto> JNum (Fin 4)]] (0, ''m'')
      = [\<lparr>label = JStr ''N'', metric = ''m'', metricIndex = 0, groupKey = JStr ''N'',
           values = [Fin 0, Fin 4, Fin 4, Fin 4],
           stats = Some \<lparr>min_stat = Fin 4, max_stat = Fin 4, q1 = Fin 3, median = Fin 4,
             q3 = Fin 4, mean = Fin 3, outliers = [Fin 0], count = 4\<rparr>\<rparr>]
   \<and> subseq [Fin 0] [Fin 0, Fin 4, Fin 4, Fin 4]
   \<and> sorted_wrt js_le [Fin 0, Fin 4, Fin 4, Fin 4]
   \<and> cellDatum (\<lambda>s. NaN) (JStr ''N'')
        [[''m'' \<mapsto> JNum (Fin 4)], [''m'' \<mapsto> JNum (Fin 0)], [''m'' \<mapsto> JNum (Fin 4)],
         [''m'' \<mapsto> JNum (Fin 4)]] ''m''
      = [\<lparr>d_group = JStr ''N'', d_metric = ''m'', d_values = [Fin 0, Fin 4, Fin 4, Fin 4],
           d_stats = Some \<lparr>min_stat = Fin 4, max_stat = Fin 4, q1 = Fin 3, median = Fin 4,
             q3 = Fin 4, mean = Fin 3, outliers = [Fin 0], count = 4\<rparr>\<rparr>]"
proof -
  define st0 where "st0 = \<lparr>min_stat = Fin 4, max_stat = Fin 4, q1 = Fin 3, median = Fin 4,
      q3 = Fin 4, mean = Fin 3, outliers = [Fin 0], count = 4\<rparr>"
  define rows :: "row list" where "rows =
      [[''m'' \<mapsto> JNum (Fin 4)], [''m'' \<mapsto> JNum (Fin 0)], [''m'' \<mapsto> JNum (Fin 4)],
       [''m'' \<mapsto> JNum (Fin 4)]]"
  define r0 where "r0 = \<lparr>label = JStr ''N'', metric = ''m'', metricIndex = 0, groupKey = JStr ''N'',
      values = [Fin 0, Fin 4, Fin 4, Fin 4], stats = Some st0\<rparr>"
  define d0 where "d0 = \<lparr>d_group = JStr ''N'', d_metric = ''m'',
      d_values = [Fin 0, Fin 4, Fin 4, Fin 4], d_stats = Some st0\<rparr>"
  note t = C10_outliers_sorted_subsequence
  have e: "priv_calculateBoxplotStats [Fin 4, Fin 0, Fin 4, Fin 4] = Some st0"
    by (simp add: stats_eval st0_def)
  have 1: "subseq (outliers st0) (sort_ascending [Fin 4, Fin 0, Fin 4, Fin 4])
      \<and> sorted (map ascending_key (outliers st0))"
    using t[THEN conjunct1, rule_format, OF disjI1, OF e] .
  have er: "cellRecord (\<lambda>s. NaN) (JStr ''N'') rows (0, ''m'') = [r0]"
    by (simp add: pipeline_eval stats_eval rows_def r0_def st0_def)
  then have "r0 \<in> set (cellRecord (\<lambda>s. NaN) (JStr ''N'') rows (0, ''m''))" by simp
  from t[THEN conjunct2, THEN conjunct1, rule_format, OF this]
  have 2: "subseq (outliers st0) (values r0) \<and> sorted_wrt js_le (values r0)"
    by (auto simp: r0_def)
  have ed: "cellDatum (\<lambda>s. NaN) (JStr ''N'') rows ''m'' = [d0]"
    by (simp add: pipeline_eval stats_eval rows_def d0_def st0_def)
  then have "d0 \<in> set (cellDatum (\<lambda>s. NaN) (JStr ''N'') rows ''m'')" by simp
  from t[THEN conjunct2, THEN conjunct2, rule_format, OF this]
  have 3: "subseq (outliers st0) (d_values d0)"
    by (auto simp: d0_def)
  show ?thesis using e 1 er 2 ed 3 unfolding st0_def rows_def r0_def d0_def by simp
qed

end
